theory Spec2Isabelle
  imports Main "HOL-Library.Sublist"
begin

section \<open>ktransw: a shallow embedding of \<^verbatim>\<open>ktransw.py\<close>\<close>

text \<open>
  The wrapper is a single Python 2 script. Its pure helpers
  (\<^verbatim>\<open>scan_for_inc_stmts\<close>, \<^verbatim>\<open>is_system_header\<close>, \<^verbatim>\<open>find_hdr_in_incdirs\<close>,
  \<^verbatim>\<open>setup_gpp_cline\<close>) become HOL functions of the same name. \<^verbatim>\<open>main\<close> talks to the
  operating system; everything it asks of it (path arithmetic of \<^verbatim>\<open>os.path\<close>, the
  file system, the two child processes, \<^verbatim>\<open>mkdtemp\<close>) is a field of a record
  \<open>world\<close>, and everything it does to it is an entry of an event list. Exceptions
  and \<^verbatim>\<open>sys.exit\<close> are values of the type \<open>status\<close>.
\<close>

subsection \<open>Characters and strings\<close>

definition newline :: char where
  "newline = CHR 0x0A"

definition tab :: char where
  "tab = CHR 0x09"

definition backslash :: char where
  "backslash = CHR 0x5C"

definition dquote :: char where
  "dquote = CHR 0x22"

text \<open>
  The class \<^verbatim>\<open>\s\<close> of Python 2's \<^verbatim>\<open>re\<close> on a byte string, with neither
  \<^verbatim>\<open>LOCALE\<close> nor \<^verbatim>\<open>UNICODE\<close> set: space, \<^verbatim>\<open>\t \n \r \f \v\<close>.
\<close>

definition is_space :: "char \<Rightarrow> bool" where
  "is_space c \<longleftrightarrow> c \<in> set [CHR 0x20, CHR 0x09, CHR 0x0A, CHR 0x0D, CHR 0x0C, CHR 0x0B]"

text \<open>\<^verbatim>\<open>sep.join(xs)\<close>.\<close>

fun str_join :: "string \<Rightarrow> string list \<Rightarrow> string" where
  "str_join sep [] = []"
| "str_join sep [x] = x"
| "str_join sep (x # y # ys) = x @ sep @ str_join sep (y # ys)"

text \<open>\<^verbatim>\<open>s.endswith(suf)\<close>.\<close>

definition endswith :: "string \<Rightarrow> string \<Rightarrow> bool" where
  "endswith s suf \<longleftrightarrow> suffix suf s"

subsection \<open>Include scanner\<close>

text \<open>
  \<^verbatim>\<open>re.findall(r'^(?!\s*--)\s*%INCLUDE\s+(\S+).*$', text, re.MULTILINE)\<close>.

  \<open>match_directive s\<close> is one attempt of the pattern at a position where \<^verbatim>\<open>^\<close>
  holds, \<open>s\<close> being the text from that position on. It gives the captured group
  and the text that follows the match. Every quantifier of the pattern is followed
  by something its own class excludes, so the greedy choice is the only one and
  backtracking finds nothing else: the look-ahead and the keyword can only start at
  the first character that is not white space, the group is the whole run of such
  characters, and \<^verbatim>\<open>.*$\<close> runs to the end of the line.
\<close>

definition match_directive :: "string \<Rightarrow> (string \<times> string) option" where
  "match_directive s =
     (let s1 = dropWhile is_space s in
      if prefix ''--'' s1 then None
      else if \<not> prefix ''%INCLUDE'' s1 then None
      else
        let s2 = drop 8 s1; s3 = dropWhile is_space s2 in
        if s3 = s2 \<or> s3 = [] then None
        else Some (takeWhile (\<lambda>c. \<not> is_space c) s3,
                   dropWhile (\<lambda>c. c \<noteq> newline) (dropWhile (\<lambda>c. \<not> is_space c) s3)))"

lemma match_directive_shorter:
  assumes "match_directive s = Some (tok, rest)"
  shows "length rest < length s"
proof -
  define s1 where "s1 = dropWhile is_space s"
  define s2 where "s2 = drop 8 s1"
  define s3 where "s3 = dropWhile is_space s2"
  from assms have inc: "prefix ''%INCLUDE'' s1"
    and rest: "rest = dropWhile (\<lambda>c. c \<noteq> newline) (dropWhile (\<lambda>c. \<not> is_space c) s3)"
    by (auto simp: match_directive_def Let_def s1_def s2_def s3_def split: if_splits)
  have "length rest \<le> length s3"
    unfolding rest by (meson length_dropWhile_le order_trans)
  also have "length s3 \<le> length s2"
    unfolding s3_def by (rule length_dropWhile_le)
  also have "length s2 < length s1"
    using inc unfolding s2_def by (auto simp: prefix_def)
  also have "length s1 \<le> length s"
    unfolding s1_def by (rule length_dropWhile_le)
  finally show ?thesis .
qed

text \<open>
  \<^verbatim>\<open>findall\<close> tries the pattern at every position from left to right and, after a
  match, goes on from the end of the match. The flag says whether \<^verbatim>\<open>^\<close> holds at the
  current position: at the start of the text and right after a line feed. A match
  ends on a character that is not a line feed, so \<^verbatim>\<open>^\<close> does not hold where it ends.
\<close>

function scan_from :: "bool \<Rightarrow> string \<Rightarrow> string list" where
  "scan_from bol [] = []"
| "scan_from bol (c # cs) =
     (case (if bol then match_directive (c # cs) else None) of
        Some (tok, rest) \<Rightarrow> tok # scan_from False rest
      | None \<Rightarrow> scan_from (c = newline) cs)"
  by pat_completeness auto
termination
proof (relation "measure (\<lambda>(bol, s). length s)")
  show "wf (measure (\<lambda>(bol, s). length s))" by simp
next
  fix bol c cs x2 tok rest
  assume "(if bol then match_directive (c # cs) else None) = Some x2" and "(tok, rest) = x2"
  then have "match_directive (c # cs) = Some (tok, rest)"
    by (simp split: if_splits)
  from match_directive_shorter [OF this]
  show "((False, rest), (bol, c # cs)) \<in> measure (\<lambda>(bol, s). length s)" by simp
next
  fix bol c cs
  show "((c = newline, cs), (bol, c # cs)) \<in> measure (\<lambda>(bol, s). length s)" by simp
qed

definition scan_for_inc_stmts :: "string \<Rightarrow> string list" where
  "scan_for_inc_stmts text = scan_from True text"

subsection \<open>The environment and what a run leaves behind\<close>

datatype exn = ValueError | IOError | OSError | IndexError | NameError

text \<open>
  How the process ends: \<^verbatim>\<open>sys.exit(n)\<close>, or an exception nobody catches (the
  interpreter prints a traceback and exits with code 1).
\<close>

datatype status = Exit int | Uncaught exn

text \<open>
  A file-system entry below the temporary directory, with what the operating system
  will answer when the entry is touched: whether \<^verbatim>\<open>os.remove\<close> succeeds on a file or
  a link, whether \<^verbatim>\<open>os.listdir\<close> succeeds on a directory, and whether \<^verbatim>\<open>os.rmdir\<close>
  succeeds on it once it is empty.
\<close>

datatype node =
    File string bool
  | Link string bool
  | Dir string bool bool "node list"

datatype event =
    Exists string
  | Read string
  | Open_write string
  | Write string string
  | Call "string list"
  | Popen bool string
  | Mkdtemp string string
  | Rmtree string

text \<open>
  Everything \<^verbatim>\<open>main\<close> asks of the operating system. The functions of \<^verbatim>\<open>os.path\<close>
  depend on the platform and are left open. \<open>file_read\<close> is
  \<^verbatim>\<open>open(f, 'rb').read()\<close> and \<open>file_open_w\<close> says whether \<^verbatim>\<open>open(f, 'w')\<close>
  succeeds; \<open>subprocess_call\<close> is \<^verbatim>\<open>subprocess.call\<close>; \<open>subprocess_popen\<close> is
  \<^verbatim>\<open>Popen(...).communicate()\<close> with the flag telling whether \<^verbatim>\<open>stderr\<close> is merged
  into \<^verbatim>\<open>stdout\<close>, and gives the return code and the two captured streams. \<open>None\<close>
  stands for the exception the call raises (\<^verbatim>\<open>IOError\<close> for files, \<^verbatim>\<open>OSError\<close> for
  processes and \<^verbatim>\<open>mkdtemp\<close>). \<open>workspace_at_exit\<close> is what the temporary directory
  holds when the \<^verbatim>\<open>with\<close> block is left (\<open>None\<close>: the directory is gone), and
  \<open>runs_del\<close> says whether the interpreter still calls \<^verbatim>\<open>__del__\<close> on the
  \<^verbatim>\<open>TemporaryDirectory\<close> object before the process ends.
\<close>

record world =
  path_isabs :: "string \<Rightarrow> bool"
  path_join :: "string \<Rightarrow> string \<Rightarrow> string"
  path_exists :: "string \<Rightarrow> bool"
  path_basename :: "string \<Rightarrow> string"
  path_dirname :: "string \<Rightarrow> string"
  path_splitext :: "string \<Rightarrow> string \<times> string"
  path_abspath :: "string \<Rightarrow> string"
  file_read :: "string \<Rightarrow> string option"
  file_open_w :: "string \<Rightarrow> bool"
  subprocess_call :: "string list \<Rightarrow> int option"
  subprocess_popen :: "bool \<Rightarrow> string \<Rightarrow> (int \<times> string \<times> string) option"
  mkdtemp :: "string \<Rightarrow> string \<Rightarrow> string option"
  workspace_at_exit :: "string \<Rightarrow> node option"
  runs_del :: bool

text \<open>The \<^verbatim>\<open>argparse\<close> namespace, one field per \<^verbatim>\<open>dest\<close>.\<close>

record args =
  verbose :: bool
  quiet :: bool
  dry_run :: bool
  dep_output :: bool
  ignore_syshdrs :: bool
  dep_target :: "string option"
  dep_fname :: "string option"
  ignore_missing_hdrs :: bool
  add_phony_tgt_for_deps :: bool
  ktrans_path :: "string option"
  gpp_path :: "string option"
  include_dirs :: "string list"
  ktrans_args :: "string list"

text \<open>
  What a run of \<^verbatim>\<open>main\<close> leaves behind: how it ended, what it wrote itself to
  \<^verbatim>\<open>sys.stdout\<close> and \<^verbatim>\<open>sys.stderr\<close>, its calls to the operating system in order,
  and what is left of the temporary directory. The \<^verbatim>\<open>logger.debug\<close> lines and the
  interpreter's traceback are not part of it, nor is what a child process prints on
  an inherited stream.
\<close>

record outcome =
  status :: status
  stdout :: string
  stderr :: string
  events :: "event list"
  workspace :: "node option"

definition KTRANSW_VERSION :: string where
  "KTRANSW_VERSION = ''0.1.99''"

definition KTRANS_BIN_NAME :: string where
  "KTRANS_BIN_NAME = ''ktrans.exe''"

definition GPP_BIN_NAME :: string where
  "GPP_BIN_NAME = ''gpp.exe''"

definition OS_EX_DATAERR :: int where
  "OS_EX_DATAERR = 65"

definition KL_SUFFIX :: string where
  "KL_SUFFIX = ''.kl''"

definition PCODE_SUFFIX :: string where
  "PCODE_SUFFIX = ''.pc''"

text \<open>Python's truth value of an optional string: \<^verbatim>\<open>None\<close> and \<^verbatim>\<open>''\<close> are false.\<close>

fun truthy :: "string option \<Rightarrow> bool" where
  "truthy None = False"
| "truthy (Some s) = (s \<noteq> [])"

subsection \<open>Header classifier and include resolver\<close>

definition system_headers :: "string list" where
  "system_headers =
     [''iosetup.kl'', ''kldctptx.kl'', ''kldcutil.kl'', ''klersys.kl'', ''klerxmlf.kl'',
      ''klevaxdf.kl'', ''klevccdf.kl'', ''klevkeys.kl'', ''klevkmsk.kl'', ''klevksp.kl'',
      ''klevtpe.kl'', ''klevutil.kl'', ''kliosop.kl'', ''kliotyps.kl'', ''kliouop.kl'',
      ''klrdread.kl'', ''klrdutil.kl'', ''kluifdir.kl'', ''passcons.kl'', ''ppedef.kl'',
      ''runform.kl'', ''sledef.kl'']"

definition is_system_header :: "string \<Rightarrow> bool" where
  "is_system_header header \<longleftrightarrow> header \<in> set system_headers"

text \<open>
  \<^verbatim>\<open>find_hdr_in_incdirs\<close>: the directories are probed in order with
  \<^verbatim>\<open>os.path.exists\<close>; \<open>None\<close> is the \<^verbatim>\<open>ValueError\<close> raised when the loop runs out.
  The probes are returned with the result.
\<close>

fun find_hdr_in_incdirs :: "world \<Rightarrow> string \<Rightarrow> string list \<Rightarrow> event list \<times> string option" where
  "find_hdr_in_incdirs w header [] = ([], None)"
| "find_hdr_in_incdirs w header (include_dir # dirs) =
     (if path_exists w (path_join w include_dir header)
      then ([Exists (path_join w include_dir header)], Some include_dir)
      else (case find_hdr_in_incdirs w header dirs of
              (ev, r) \<Rightarrow> (Exists (path_join w include_dir header) # ev, r)))"

text \<open>
  The statements of the loop body in \<^verbatim>\<open>main\<close> that compute \<^verbatim>\<open>hdr_path\<close>: an absolute
  header is taken as it is, any other is looked up and joined to the directory it was
  found in. \<open>None\<close> is the \<^verbatim>\<open>ValueError\<close> arriving at the \<^verbatim>\<open>except\<close> clause.
\<close>

definition resolve_hdr_path :: "world \<Rightarrow> string list \<Rightarrow> string \<Rightarrow> event list \<times> string option" where
  "resolve_hdr_path w dirs hdr =
     (if path_isabs w hdr then ([], Some hdr)
      else (case find_hdr_in_incdirs w hdr dirs of
              (ev, Some hdr_dir) \<Rightarrow> (ev, Some (path_join w hdr_dir hdr))
            | (ev, None) \<Rightarrow> (ev, None)))"

text \<open>
  One turn of the loop over the scanned headers in \<^verbatim>\<open>main\<close>: the header is skipped,
  a path is appended to \<^verbatim>\<open>deps\<close>, or the program writes the fatal error and exits.
\<close>

datatype step = Skip | Add string | Fatal string

definition dep_of_hdr :: "world \<Rightarrow> args \<Rightarrow> string \<Rightarrow> event list \<times> step" where
  "dep_of_hdr w a hdr =
     (if ignore_syshdrs a \<and> is_system_header hdr then ([], Skip)
      else (case resolve_hdr_path w (include_dirs a) hdr of
              (ev, Some hdr_path) \<Rightarrow> (ev, Add hdr_path)
            | (ev, None) \<Rightarrow>
                (ev, if \<not> ignore_missing_hdrs a then Fatal hdr else Add hdr)))"

text \<open>
  The loop itself, with \<^verbatim>\<open>deps\<close> as accumulator: \<open>Inl hdr\<close> when it stopped at the
  missing header \<open>hdr\<close>, \<open>Inr deps\<close> when it ran to its end.
\<close>

fun collect_deps :: "world \<Rightarrow> args \<Rightarrow> string list \<Rightarrow> string list \<Rightarrow> event list \<times> (string + string list)" where
  "collect_deps w a deps [] = ([], Inr deps)"
| "collect_deps w a deps (hdr # incs) =
     (case dep_of_hdr w a hdr of
        (ev, Skip) \<Rightarrow> (case collect_deps w a deps incs of (ev', r) \<Rightarrow> (ev @ ev', r))
      | (ev, Add hdr_path) \<Rightarrow>
          (case collect_deps w a (deps @ [hdr_path]) incs of (ev', r) \<Rightarrow> (ev @ ev', r))
      | (ev, Fatal h) \<Rightarrow> (ev, Inl h))"

subsection \<open>Dependency emitter\<close>

definition dep_lines :: "string \<Rightarrow> string list \<Rightarrow> bool \<Rightarrow> string" where
  "dep_lines target deps phony =
     target @ '' : '' @ str_join ('' '' @ [backslash, newline, tab]) deps @ [newline]
     @ (if phony then str_join [newline] (map (\<lambda>dep. dep @ '':'') deps) @ [newline] else [])"

definition fatal_error :: "string \<Rightarrow> string" where
  "fatal_error hdr = ''ktransw: fatal error: '' @ hdr @ '': No such file or directory'' @ [newline]"

text \<open>
  The rule's target: \<^verbatim>\<open>args.dep_target or basename(splitext(kl_file)[0]) + '.pc'\<close>.
\<close>

definition dep_target_name :: "world \<Rightarrow> args \<Rightarrow> string \<Rightarrow> string" where
  "dep_target_name w a kl_file =
     (if truthy (dep_target a) then the (dep_target a)
      else path_basename w (fst (path_splitext w kl_file)) @ PCODE_SUFFIX)"

text \<open>The branch of \<^verbatim>\<open>main\<close> taken for \<^verbatim>\<open>-M\<close> and \<^verbatim>\<open>-MM\<close>, given the source file.\<close>

definition dependency_output :: "world \<Rightarrow> args \<Rightarrow> string \<Rightarrow> outcome" where
  "dependency_output w a kl_file =
     (case file_read w kl_file of
        None \<Rightarrow>
          \<lparr>status = Uncaught IOError, stdout = [], stderr = [],
           events = [Read kl_file], workspace = None\<rparr>
      | Some source \<Rightarrow>
          let incs = scan_for_inc_stmts source;
              target = dep_target_name w a kl_file
          in
          (case collect_deps w a [] incs of
             (ev, Inl hdr) \<Rightarrow>
               \<lparr>status = Exit OS_EX_DATAERR, stdout = [], stderr = fatal_error hdr,
                events = Read kl_file # ev, workspace = None\<rparr>
           | (ev, Inr deps) \<Rightarrow>
               let rule = dep_lines target deps (add_phony_tgt_for_deps a) in
               if truthy (dep_fname a) then
                 (if file_open_w w (the (dep_fname a)) then
                    \<lparr>status = Exit 0, stdout = [], stderr = [],
                     events = Read kl_file # ev @
                       [Open_write (the (dep_fname a)), Write (the (dep_fname a)) rule],
                     workspace = None\<rparr>
                  else
                    \<lparr>status = Uncaught IOError, stdout = [], stderr = [],
                     events = Read kl_file # ev @ [Open_write (the (dep_fname a))],
                     workspace = None\<rparr>)
               else
                 \<lparr>status = Exit 0, stdout = rule, stderr = [],
                  events = Read kl_file # ev, workspace = None\<rparr>))"

subsection \<open>The preprocessor's command line\<close>

definition quoted :: "string \<Rightarrow> string" where
  "quoted s = dquote # s @ [dquote]"

definition setup_gpp_cline :: "string \<Rightarrow> string \<Rightarrow> string \<Rightarrow> string list \<Rightarrow> string list" where
  "setup_gpp_cline gpp_exe src_file dest_file dirs =
     [gpp_exe, ''+z'',
      ''-U'', quoted [], quoted [], quoted ''('', quoted '','', quoted '')'', quoted ''('',
      quoted '')'', quoted ''#'', quoted [],
      ''-M'', quoted (backslash # ''n%'' @ backslash # ''w''), quoted (backslash # ''n''),
      quoted '' '', quoted '' '', quoted (backslash # ''n''), quoted [], quoted []]
     @ map (\<lambda>d. ''-I'' @ d) dirs
     @ [''-o'', dest_file]
     @ [src_file]"

subsection \<open>Scoped workspace\<close>

text \<open>
  \<^verbatim>\<open>TemporaryDirectory._rmtree\<close>. The first component of the result is the exception
  that leaves the call, the second what is left on disk. \<^verbatim>\<open>os.listdir\<close> stands
  outside every \<^verbatim>\<open>try\<close>, so its \<^verbatim>\<open>OSError\<close> leaves the call; those of
  \<^verbatim>\<open>os.remove\<close> and \<^verbatim>\<open>os.rmdir\<close> are caught and dropped. \<^verbatim>\<open>os.rmdir\<close> fails on a
  directory that still has an entry. \<^verbatim>\<open>os.path.isdir\<close> and \<^verbatim>\<open>os.path.islink\<close> never
  raise; a link is not descended into but removed like a file.
\<close>

fun opt_list :: "'a option \<Rightarrow> 'a list" where
  "opt_list None = []"
| "opt_list (Some x) = [x]"

fun rmtree :: "node \<Rightarrow> exn option \<times> node option"
  and rmtree_names :: "node list \<Rightarrow> exn option \<times> node list" where
  "rmtree (File n ok) = (Some OSError, Some (File n ok))"
| "rmtree (Link n ok) = (Some OSError, Some (Link n ok))"
| "rmtree (Dir n ls rm cs) =
     (if \<not> ls then (Some OSError, Some (Dir n ls rm cs))
      else (case rmtree_names cs of
              (Some e, cs') \<Rightarrow> (Some e, Some (Dir n ls rm cs'))
            | (None, cs') \<Rightarrow>
                (None, if rm \<and> cs' = [] then None else Some (Dir n ls rm cs'))))"
| "rmtree_names [] = (None, [])"
| "rmtree_names (File n ok # cs) =
     (case rmtree_names cs of (e, cs') \<Rightarrow> (e, if ok then cs' else File n ok # cs'))"
| "rmtree_names (Link n ok # cs) =
     (case rmtree_names cs of (e, cs') \<Rightarrow> (e, if ok then cs' else Link n ok # cs'))"
| "rmtree_names (Dir n ls rm ds # cs) =
     (case rmtree (Dir n ls rm ds) of
        (Some e, d') \<Rightarrow> (Some e, opt_list d' @ cs)
      | (None, d') \<Rightarrow> (case rmtree_names cs of (e, cs') \<Rightarrow> (e, opt_list d' @ cs')))"

text \<open>\<^verbatim>\<open>self._rmtree(self.name)\<close> on the disk: a directory that is gone cannot be listed.\<close>

fun rmtree_path :: "node option \<Rightarrow> exn option \<times> node option" where
  "rmtree_path None = (Some OSError, None)"
| "rmtree_path (Some t) = rmtree t"

text \<open>The object's fields \<^verbatim>\<open>name\<close> and \<^verbatim>\<open>_closed\<close>.\<close>

record tmpdir =
  td_name :: string
  td_closed :: bool

text \<open>
  \<^verbatim>\<open>TemporaryDirectory.cleanup\<close>. \<^verbatim>\<open>_rmtree\<close> raises no \<^verbatim>\<open>TypeError\<close> or
  \<^verbatim>\<open>AttributeError\<close> here, so the handler is never entered and an \<^verbatim>\<open>OSError\<close>
  passes through, before \<^verbatim>\<open>_closed\<close> is set. With \<^verbatim>\<open>_warn\<close> the last statement
  names \<^verbatim>\<open>ResourceWarning\<close>, which Python 2 does not have: a \<^verbatim>\<open>NameError\<close>.
\<close>

definition cleanup :: "bool \<Rightarrow> tmpdir \<Rightarrow> node option \<Rightarrow> exn option \<times> tmpdir \<times> node option \<times> event list" where
  "cleanup warn td disk =
     (if td_name td \<noteq> [] \<and> \<not> td_closed td then
        (case rmtree_path disk of
           (Some e, disk') \<Rightarrow> (Some e, td, disk', [Rmtree (td_name td)])
         | (None, disk') \<Rightarrow>
             (if warn then Some NameError else None, td\<lparr>td_closed := True\<rparr>, disk',
              [Rmtree (td_name td)]))
      else (None, td, disk, []))"

subsection \<open>Build orchestrator\<close>

text \<open>\<^verbatim>\<open>s.replace(old, new)\<close>: the occurrences from left to right, none overlapping.\<close>

function str_replace :: "string \<Rightarrow> string \<Rightarrow> string \<Rightarrow> string" where
  "str_replace old new [] = (if old = [] then new else [])"
| "str_replace old new (c # cs) =
     (if old = [] then new @ c # str_replace old new cs
      else if prefix old (c # cs) then new @ str_replace old new (drop (length old) (c # cs))
      else c # str_replace old new cs)"
  by pat_completeness auto
termination
  by (relation "measure (\<lambda>(old, new, s). length s)") auto

text \<open>No source file among the arguments: \<^verbatim>\<open>ktrans\<close> is called with them as they are.\<close>

definition passthrough :: "world \<Rightarrow> string \<Rightarrow> string list \<Rightarrow> outcome" where
  "passthrough w ktrans_exe kargs =
     (let banner = ''KTRANSW V'' @ KTRANSW_VERSION @ '', Copyright (C) 2016 G.A. vd. Hoorn'' @ [newline];
          ktrans_cmdline = ktrans_exe # kargs
      in case subprocess_call w ktrans_cmdline of
           None \<Rightarrow>
             \<lparr>status = Uncaught OSError, stdout = banner, stderr = [],
              events = [Call ktrans_cmdline], workspace = None\<rparr>
         | Some ktrans_ret \<Rightarrow>
             \<lparr>status = Exit ktrans_ret, stdout = banner, stderr = [],
              events = [Call ktrans_cmdline], workspace = None\<rparr>)"

text \<open>
  The names the body of the \<^verbatim>\<open>with\<close> block computes, \<open>dname\<close> being the temporary
  directory: the intermediate file, the preprocessor's command line, and the
  translator's, in which every argument equal to the source file is replaced by the
  intermediate file.
\<close>

definition intermediate :: "world \<Rightarrow> string \<Rightarrow> string \<Rightarrow> string" where
  "intermediate w kl_file dname = path_join w dname (path_basename w kl_file)"

definition gpp_command :: "world \<Rightarrow> args \<Rightarrow> string \<Rightarrow> string \<Rightarrow> string \<Rightarrow> string" where
  "gpp_command w a gpp_exe kl_file dname =
     str_join '' '' (setup_gpp_cline gpp_exe kl_file (intermediate w kl_file dname) (include_dirs a))"

definition ktrans_command :: "world \<Rightarrow> args \<Rightarrow> string \<Rightarrow> string \<Rightarrow> string \<Rightarrow> string" where
  "ktrans_command w a ktrans_exe kl_file dname =
     str_join '' ''
       (ktrans_exe #
        map (\<lambda>arg. if arg = kl_file then intermediate w kl_file dname else arg) (ktrans_args a))"

text \<open>The body of the \<^verbatim>\<open>with\<close> block.\<close>

definition build :: "world \<Rightarrow> args \<Rightarrow> string \<Rightarrow> string \<Rightarrow> string \<Rightarrow> string \<Rightarrow> outcome" where
  "build w a ktrans_exe gpp_exe kl_file dname =
     (let gpp_cmdline = gpp_command w a gpp_exe kl_file dname
      in case subprocess_popen w False gpp_cmdline of
           None \<Rightarrow>
             \<lparr>status = Uncaught OSError, stdout = [], stderr = [],
              events = [Popen False gpp_cmdline], workspace = None\<rparr>
         | Some (gpp_ret, gpp_out, gpp_err) \<Rightarrow>
             if gpp_ret \<noteq> 0 then
               \<lparr>status = Exit gpp_ret, stdout = [],
                stderr = gpp_err @ [newline] @ ''Translation terminated'' @ [newline],
                events = [Popen False gpp_cmdline], workspace = None\<rparr>
             else
               (let ktrans_cmdline = ktrans_command w a ktrans_exe kl_file dname
                in case subprocess_popen w True ktrans_cmdline of
                    None \<Rightarrow>
                      \<lparr>status = Uncaught OSError, stdout = [], stderr = [],
                       events = [Popen False gpp_cmdline, Popen True ktrans_cmdline],
                       workspace = None\<rparr>
                  | Some (ret, pstdout, unused) \<Rightarrow>
                      \<lparr>status = Exit ret,
                       stdout = (if ret \<noteq> 0 \<or> \<not> quiet a \<or> verbose a
                                 then str_replace dname (path_dirname w kl_file) pstdout @ [newline]
                                 else []),
                       stderr = [],
                       events = [Popen False gpp_cmdline, Popen True ktrans_cmdline],
                       workspace = None\<rparr>))"

text \<open>
  The \<^verbatim>\<open>with\<close> statement: \<^verbatim>\<open>mkdtemp\<close>, the body, \<^verbatim>\<open>__exit__\<close> on every way out of
  the body (it returns nothing, so the body's \<^verbatim>\<open>SystemExit\<close> or exception goes on,
  unless \<^verbatim>\<open>cleanup\<close> raises one of its own), and \<^verbatim>\<open>__del__\<close>, whose exceptions the
  interpreter ignores.
\<close>

definition compile :: "world \<Rightarrow> args \<Rightarrow> string \<Rightarrow> string \<Rightarrow> string \<Rightarrow> outcome" where
  "compile w a ktrans_exe gpp_exe kl_file =
     (case mkdtemp w ''-buildd'' ''ktransw-'' of
        None \<Rightarrow>
          \<lparr>status = Uncaught OSError, stdout = [], stderr = [],
           events = [Mkdtemp ''-buildd'' ''ktransw-''], workspace = None\<rparr>
      | Some dname \<Rightarrow>
          (let body = build w a ktrans_exe gpp_exe kl_file dname in
           case cleanup False \<lparr>td_name = dname, td_closed = False\<rparr> (workspace_at_exit w dname) of
             (e1, td1, disk1, ev1) \<Rightarrow>
               (case (if runs_del w then cleanup True td1 disk1 else (None, td1, disk1, [])) of
                  (e2, td2, disk2, ev2) \<Rightarrow>
                    \<lparr>status = (case e1 of Some e \<Rightarrow> Uncaught e | None \<Rightarrow> status body),
                     stdout = stdout body, stderr = stderr body,
                     events = Mkdtemp ''-buildd'' ''ktransw-'' # events body @ ev1 @ ev2,
                     workspace = disk2\<rparr>)))"

text \<open>
  The loop that makes every argument absolute that is neither a \<^verbatim>\<open>ktrans\<close> option nor
  a version identifier. \<^verbatim>\<open>args.ktrans_args[i][0]\<close> raises \<^verbatim>\<open>IndexError\<close> on an empty
  argument.
\<close>

fun absolutize :: "world \<Rightarrow> string list \<Rightarrow> exn + string list" where
  "absolutize w [] = Inr []"
| "absolutize w ([] # xs) = Inl IndexError"
| "absolutize w ((c # cs) # xs) =
     (case absolutize w xs of
        Inl e \<Rightarrow> Inl e
      | Inr ys \<Rightarrow>
          Inr ((if c \<noteq> CHR ''/'' \<and> c \<noteq> CHR ''V'' \<and> c \<noteq> CHR ''v''
                then path_abspath w (c # cs) else c # cs) # ys))"

fun exe_path :: "world \<Rightarrow> string option \<Rightarrow> string \<Rightarrow> string" where
  "exe_path w None bin = bin"
| "exe_path w (Some p) bin = (if p = [] then bin else path_abspath w p)"

text \<open>\<^verbatim>\<open>main\<close>, from the parsed arguments on.\<close>

definition main :: "world \<Rightarrow> args \<Rightarrow> outcome" where
  "main w parsed =
     (let ktrans_exe = exe_path w (ktrans_path parsed) KTRANS_BIN_NAME;
          gpp_exe = exe_path w (gpp_path parsed) GPP_BIN_NAME
      in case absolutize w (ktrans_args parsed) of
           Inl e \<Rightarrow>
             \<lparr>status = Uncaught e, stdout = [], stderr = [], events = [], workspace = None\<rparr>
         | Inr kargs \<Rightarrow>
             let a = parsed\<lparr>ktrans_args := kargs\<rparr>;
                 kl_files = filter (\<lambda>arg. endswith arg KL_SUFFIX) kargs
             in
             if (dep_output a \<or> ignore_syshdrs a) \<and> kl_files \<noteq> [] then
               dependency_output w a (hd kl_files)
             else if kl_files = [] then
               passthrough w ktrans_exe kargs
             else if dry_run a then
               \<lparr>status = Exit 0, stdout = [], stderr = [], events = [], workspace = None\<rparr>
             else
               compile w a ktrans_exe gpp_exe (hd kl_files))"

subsection \<open>A sample environment\<close>

text \<open>
  A small Unix-like environment to run the definitions on: three include directories,
  two of them holding \<^verbatim>\<open>foo.kl\<close>, one source file, a preprocessor that succeeds and
  a translator that fails with a diagnostic naming the temporary directory.
\<close>

definition sample_source :: string where
  "sample_source =
     ''PROGRAM main'' @ [newline] @
     ''%INCLUDE foo.kl'' @ [newline] @
     ''-- %INCLUDE old.kl'' @ [newline] @
     ''  %INCLUDE klevkeys.kl  -- keys'' @ [newline] @
     ''%INCLUDE gen.kl'' @ [newline] @
     ''%INCLUDE foo.kl'' @ [newline] @
     ''%INCLUDE /abs/bar.kl'' @ [newline]"

definition sample_world :: world where
  "sample_world =
     \<lparr>path_isabs = (\<lambda>p. take 1 p = ''/''),
      path_join = (\<lambda>d p. d @ ''/'' @ p),
      path_exists = (\<lambda>p. p \<in> set [''/inc2/foo.kl'', ''/inc3/foo.kl'', ''/inc3/klevkeys.kl'']),
      path_basename = (\<lambda>p. rev (takeWhile (\<lambda>c. c \<noteq> CHR ''/'') (rev p))),
      path_dirname = (\<lambda>p. rev (drop 1 (dropWhile (\<lambda>c. c \<noteq> CHR ''/'') (rev p)))),
      path_splitext = (\<lambda>p. (rev (drop 1 (dropWhile (\<lambda>c. c \<noteq> CHR ''.'') (rev p))),
                             CHR ''.'' # rev (takeWhile (\<lambda>c. c \<noteq> CHR ''.'') (rev p)))),
      path_abspath = (\<lambda>p. if take 1 p = ''/'' then p else ''/cwd/'' @ p),
      file_read = (\<lambda>f. if f = ''/src/main.kl'' then Some sample_source else None),
      file_open_w = (\<lambda>f. True),
      subprocess_call = (\<lambda>cmd. Some 7),
      subprocess_popen = (\<lambda>merged cmd.
         if merged then Some (2, ''/tmp/ktransw-x-buildd/main.kl(3) bad /tmp/ktransw-x-buildd/'', [])
         else Some (0, [], [])),
      mkdtemp = (\<lambda>suffix prefix. Some (''/tmp/'' @ prefix @ ''x'' @ suffix)),
      workspace_at_exit = (\<lambda>d. Some (Dir d True True [File ''main.kl'' True])),
      runs_del = True\<rparr>"

definition sample_args :: args where
  "sample_args =
     \<lparr>verbose = False, quiet = False, dry_run = False, dep_output = False,
      ignore_syshdrs = False, dep_target = None, dep_fname = None,
      ignore_missing_hdrs = False, add_phony_tgt_for_deps = False,
      ktrans_path = None, gpp_path = None,
      include_dirs = [''/inc1'', ''/inc2'', ''/inc3''],
      ktrans_args = [''/src/main.kl'', ''/config'', ''robot.ini'', ''other.kl'']\<rparr>"

subsection \<open>Vocabulary of the properties\<close>

text \<open>
  Vocabulary for the loop over the scanned headers: a header is \<open>skipped\<close> when it is a
  system header and \<^verbatim>\<open>-MM\<close> was given; it is \<open>missing\<close> when it is not skipped, not
  absolute and in none of the include directories; \<open>dep_path\<close> is the path the loop
  appends for a header that it neither skips nor dies on.
\<close>

definition skipped :: "args \<Rightarrow> string \<Rightarrow> bool" where
  "skipped a hdr \<longleftrightarrow> ignore_syshdrs a \<and> is_system_header hdr"

definition missing :: "world \<Rightarrow> args \<Rightarrow> string \<Rightarrow> bool" where
  "missing w a hdr \<longleftrightarrow>
     \<not> skipped a hdr \<and> \<not> path_isabs w hdr \<and> snd (find_hdr_in_incdirs w hdr (include_dirs a)) = None"

definition dep_path :: "world \<Rightarrow> args \<Rightarrow> string \<Rightarrow> string" where
  "dep_path w a hdr =
     (case snd (resolve_hdr_path w (include_dirs a) hdr) of Some hdr_path \<Rightarrow> hdr_path | None \<Rightarrow> hdr)"

text \<open>
  A tree is \<open>listable\<close> when \<^verbatim>\<open>os.listdir\<close> succeeds on each of its directories.
  \<open>leaves\<close> are its files and links, in the order \<^verbatim>\<open>_rmtree\<close> meets them.
\<close>

fun listable :: "node \<Rightarrow> bool" where
  "listable (File n ok) = True"
| "listable (Link n ok) = True"
| "listable (Dir n ls rm cs) = (ls \<and> list_all listable cs)"

fun leaves :: "node \<Rightarrow> (string \<times> bool) list" where
  "leaves (File n ok) = [(n, ok)]"
| "leaves (Link n ok) = [(n, ok)]"
| "leaves (Dir n ls rm cs) = concat (map leaves cs)"

text \<open>
  A directory that is left behind is \<open>settled\<close> when it still has an entry or its
  \<^verbatim>\<open>os.rmdir\<close> fails, and the same holds below it: no directory was forgotten.
\<close>

fun settled :: "node \<Rightarrow> bool" where
  "settled (File n ok) = True"
| "settled (Link n ok) = True"
| "settled (Dir n ls rm cs) = ((cs \<noteq> [] \<or> \<not> rm) \<and> list_all settled cs)"

text \<open>
  A temporary directory as a translator may leave it: the intermediate file, still
  locked, a subdirectory that cannot be listed, and a listing file that can be
  removed; and the sample environment with it.
\<close>

definition stuck_workspace :: "string \<Rightarrow> node" where
  "stuck_workspace d =
     Dir d True True [File ''main.kl'' False, Dir ''sub'' False True [], File ''main.ls'' True]"

definition stuck_world :: world where
  "stuck_world = sample_world\<lparr>workspace_at_exit := (\<lambda>d. Some (stuck_workspace d))\<rparr>"

text \<open>
  The sample environment of a user who gives the include directory relative to the
  working directory: \<^verbatim>\<open>-I./inc -M /src/main.kl\<close>, where the source file includes
  \<^verbatim>\<open>foo.kl\<close> and \<^verbatim>\<open>./inc/foo.kl\<close> exists.
\<close>

definition relative_world :: world where
  "relative_world =
     sample_world\<lparr>path_exists := (\<lambda>p. p = ''./inc/foo.kl''),
                  file_read := (\<lambda>f. if f = ''/src/main.kl''
                                      then Some (''%INCLUDE foo.kl'' @ [newline]) else None)\<rparr>"

definition relative_args :: args where
  "relative_args =
     sample_args\<lparr>dep_output := True, include_dirs := [''./inc''], ktrans_args := [''/src/main.kl'']\<rparr>"

text \<open>
  A comment line: its first character that is not white space starts the comment
  marker \<^verbatim>\<open>--\<close>.
\<close>

definition comment_line :: "string \<Rightarrow> bool" where
  "comment_line l \<longleftrightarrow> prefix ''--'' (dropWhile is_space l)"

text \<open>
  \<open>directive_of text tok\<close>: somewhere in \<open>text\<close> a line starts (after \<open>pre\<close>) with
  nothing but white space (\<open>ind\<close>) before the keyword, and \<open>tok\<close> is the first run of
  characters that are not white space after the white space (\<open>gap\<close>) that follows the
  keyword.
\<close>

definition directive_of :: "string \<Rightarrow> string \<Rightarrow> bool" where
  "directive_of text tok \<longleftrightarrow>
     (\<exists>pre ind gap post.
        text = pre @ ind @ ''%INCLUDE'' @ gap @ tok @ post \<and>
        (pre = [] \<or> last pre = newline) \<and>
        (\<forall>c\<in>set ind. is_space c \<and> c \<noteq> newline) \<and>
        gap \<noteq> [] \<and> (\<forall>c\<in>set gap. is_space c) \<and>
        tok \<noteq> [] \<and> (\<forall>c\<in>set tok. \<not> is_space c) \<and>
        (post = [] \<or> is_space (hd post)))"

section \<open>Properties\<close>

subsection \<open>Include resolver\<close>

lemma find_hdr_in_incdirs_first:
  assumes "\<forall>x\<in>set pre. \<not> path_exists w (path_join w x hdr)"
    and "path_exists w (path_join w d hdr)"
  shows "find_hdr_in_incdirs w hdr (pre @ d # post) =
           (map (\<lambda>x. Exists (path_join w x hdr)) (pre @ [d]), Some d)"
  using assms by (induction pre) simp_all

lemma find_hdr_in_incdirs_none:
  assumes "\<forall>x\<in>set dirs. \<not> path_exists w (path_join w x hdr)"
  shows "find_hdr_in_incdirs w hdr dirs = (map (\<lambda>x. Exists (path_join w x hdr)) dirs, None)"
  using assms by (induction dirs) simp_all

text \<open>
  The order of the search. An absolute header resolves to itself and no directory is
  probed. Any other header resolves to the join of the header with the first directory
  of the list whose join with the header exists, the directories before it having been
  probed in order and none after it; when no directory of the list has it, every
  directory has been probed and the result is \<open>None\<close>, the \<^verbatim>\<open>ValueError\<close> of
  \<^verbatim>\<open>find_hdr_in_incdirs\<close>. The join is made with the directory as it was given.
\<close>

theorem resolve_first_directory:
  "(path_isabs w hdr \<longrightarrow> resolve_hdr_path w dirs hdr = ([], Some hdr)) \<and>
   (\<not> path_isabs w hdr \<longrightarrow>
      (\<forall>pre d post.
          dirs = pre @ d # post \<and>
          (\<forall>x\<in>set pre. \<not> path_exists w (path_join w x hdr)) \<and>
          path_exists w (path_join w d hdr) \<longrightarrow>
          find_hdr_in_incdirs w hdr dirs =
            (map (\<lambda>x. Exists (path_join w x hdr)) (pre @ [d]), Some d) \<and>
          resolve_hdr_path w dirs hdr =
            (map (\<lambda>x. Exists (path_join w x hdr)) (pre @ [d]), Some (path_join w d hdr))) \<and>
      ((\<forall>x\<in>set dirs. \<not> path_exists w (path_join w x hdr)) \<longrightarrow>
          resolve_hdr_path w dirs hdr = (map (\<lambda>x. Exists (path_join w x hdr)) dirs, None)))"
  by (auto simp: resolve_hdr_path_def find_hdr_in_incdirs_first find_hdr_in_incdirs_none)

theorem resolve_first_directory_witness:
  "resolve_hdr_path sample_world [''/inc1'', ''/inc2'', ''/inc3''] ''/abs/bar.kl''
     = ([], Some ''/abs/bar.kl'') \<and>
   resolve_hdr_path sample_world [''/inc1'', ''/inc2'', ''/inc3''] ''foo.kl''
     = ([Exists ''/inc1/foo.kl'', Exists ''/inc2/foo.kl''], Some ''/inc2/foo.kl'') \<and>
   resolve_hdr_path sample_world [''/inc1'', ''/inc2'', ''/inc3''] ''gen.kl''
     = ([Exists ''/inc1/gen.kl'', Exists ''/inc2/gen.kl'', Exists ''/inc3/gen.kl''], None)"
proof -
  let ?dirs = "[''/inc1'', ''/inc2'', ''/inc3'']"
  have abs: "path_isabs sample_world ''/abs/bar.kl''"
    by (simp add: sample_world_def)
  have rel: "\<not> path_isabs sample_world ''foo.kl''" "\<not> path_isabs sample_world ''gen.kl''"
    by (simp_all add: sample_world_def)
  have split: "?dirs = [''/inc1''] @ ''/inc2'' # [''/inc3'']"
    by simp
  have before: "\<forall>x\<in>set [''/inc1'']. \<not> path_exists sample_world (path_join sample_world x ''foo.kl'')"
    by (simp add: sample_world_def)
  have there: "path_exists sample_world (path_join sample_world ''/inc2'' ''foo.kl'')"
    by (simp add: sample_world_def)
  have nowhere: "\<forall>x\<in>set ?dirs. \<not> path_exists sample_world (path_join sample_world x ''gen.kl'')"
    by (simp add: sample_world_def)
  from resolve_first_directory [of sample_world "''/abs/bar.kl''" ?dirs] abs
  have 1: "resolve_hdr_path sample_world ?dirs ''/abs/bar.kl'' = ([], Some ''/abs/bar.kl'')"
    by blast
  from resolve_first_directory [of sample_world "''foo.kl''" ?dirs] rel(1) split before there
  have "resolve_hdr_path sample_world ?dirs ''foo.kl'' =
          (map (\<lambda>x. Exists (path_join sample_world x ''foo.kl'')) ([''/inc1''] @ [''/inc2'']),
           Some (path_join sample_world ''/inc2'' ''foo.kl''))"
    by blast
  then have 2: "resolve_hdr_path sample_world ?dirs ''foo.kl'' =
          ([Exists ''/inc1/foo.kl'', Exists ''/inc2/foo.kl''], Some ''/inc2/foo.kl'')"
    by (simp add: sample_world_def)
  from resolve_first_directory [of sample_world "''gen.kl''" ?dirs] rel(2) nowhere
  have "resolve_hdr_path sample_world ?dirs ''gen.kl'' =
          (map (\<lambda>x. Exists (path_join sample_world x ''gen.kl'')) ?dirs, None)"
    by blast
  then have 3: "resolve_hdr_path sample_world ?dirs ''gen.kl'' =
          ([Exists ''/inc1/gen.kl'', Exists ''/inc2/gen.kl'', Exists ''/inc3/gen.kl''], None)"
    by (simp add: sample_world_def)
  from 1 2 3 show ?thesis by blast
qed

subsection \<open>The dependency loop\<close>

lemma resolve_none_iff:
  "snd (resolve_hdr_path w dirs hdr) = None \<longleftrightarrow>
     \<not> path_isabs w hdr \<and> snd (find_hdr_in_incdirs w hdr dirs) = None"
  by (auto simp: resolve_hdr_path_def split: prod.splits option.splits)

lemma dep_of_hdr_cases:
  "snd (dep_of_hdr w a hdr) =
     (if skipped a hdr then Skip
      else if missing w a hdr \<and> \<not> ignore_missing_hdrs a then Fatal hdr
      else Add (dep_path w a hdr))"
  by (auto simp: dep_of_hdr_def skipped_def missing_def dep_path_def resolve_none_iff [symmetric]
           split: prod.splits option.splits)

lemma snd_collect_deps_Cons:
  "snd (collect_deps w a deps (hdr # incs)) =
     (if skipped a hdr then snd (collect_deps w a deps incs)
      else if missing w a hdr \<and> \<not> ignore_missing_hdrs a then Inl hdr
      else snd (collect_deps w a (deps @ [dep_path w a hdr]) incs))"
proof -
  have "snd (collect_deps w a deps (hdr # incs)) =
     (case snd (dep_of_hdr w a hdr) of
        Skip \<Rightarrow> snd (collect_deps w a deps incs)
      | Add p \<Rightarrow> snd (collect_deps w a (deps @ [p]) incs)
      | Fatal h \<Rightarrow> Inl h)"
    by (simp split: prod.splits step.splits)
  then show ?thesis
    by (simp add: dep_of_hdr_cases)
qed

lemma collect_deps_Inr:
  "snd (collect_deps w a deps incs) = Inr ds \<Longrightarrow>
     ds = deps @ map (dep_path w a) (filter (\<lambda>h. \<not> skipped a h) incs)"
proof (induction incs arbitrary: deps)
  case Nil
  then show ?case by simp
next
  case (Cons hdr incs)
  show ?case
  proof (cases "skipped a hdr")
    case True
    with Cons show ?thesis
      by (simp add: snd_collect_deps_Cons del: collect_deps.simps(2))
  next
    case False
    with Cons.prems
    have "snd (collect_deps w a (deps @ [dep_path w a hdr]) incs) = Inr ds"
      by (simp add: snd_collect_deps_Cons del: collect_deps.simps(2) split: if_splits)
    from Cons.IH [OF this] False show ?thesis by simp
  qed
qed


lemma collect_deps_first_missing:
  assumes "\<not> ignore_missing_hdrs a" "missing w a h" "\<forall>x\<in>set pre. \<not> missing w a x"
  shows "snd (collect_deps w a deps (pre @ h # post)) = Inl h"
  using assms(3)
proof (induction pre arbitrary: deps)
  case Nil
  from assms(2) have "\<not> skipped a h" by (simp add: missing_def)
  with assms(1,2) show ?case
    by (simp add: snd_collect_deps_Cons del: collect_deps.simps(2))
next
  case (Cons x pre)
  then show ?case
    by (simp add: snd_collect_deps_Cons del: collect_deps.simps(2))
qed

lemma find_hdr_in_incdirs_events:
  "e \<in> set (fst (find_hdr_in_incdirs w hdr dirs)) \<Longrightarrow> \<exists>p. e = Exists p"
  by (induction dirs) (auto split: if_splits prod.splits)

lemma dep_of_hdr_events:
  "e \<in> set (fst (dep_of_hdr w a hdr)) \<Longrightarrow> \<exists>p. e = Exists p"
  using find_hdr_in_incdirs_events [of e w hdr "include_dirs a"]
  by (auto simp: dep_of_hdr_def resolve_hdr_path_def split: if_splits prod.splits option.splits)

lemma collect_deps_events:
  "e \<in> set (fst (collect_deps w a deps incs)) \<Longrightarrow> \<exists>p. e = Exists p"
proof (induction incs arbitrary: deps)
  case Nil
  then show ?case by simp
next
  case (Cons hdr incs)
  obtain ev st where st: "dep_of_hdr w a hdr = (ev, st)"
    by (cases "dep_of_hdr w a hdr")
  have ev: "e \<in> set ev \<Longrightarrow> \<exists>p. e = Exists p"
    using dep_of_hdr_events [of e w a hdr] st by simp
  show ?case
  proof (cases st)
    case Skip
    with Cons.prems st have "e \<in> set ev \<or> e \<in> set (fst (collect_deps w a deps incs))"
      by (auto split: prod.splits)
    with ev Cons.IH show ?thesis by blast
  next
    case (Add hdr_path)
    with Cons.prems st
    have "e \<in> set ev \<or> e \<in> set (fst (collect_deps w a (deps @ [hdr_path]) incs))"
      by (auto split: prod.splits)
    with ev Cons.IH show ?thesis by blast
  next
    case (Fatal h)
    with Cons.prems st ev show ?thesis by simp
  qed
qed

lemma skipped_ktrans_args [simp]: "skipped (a\<lparr>ktrans_args := k\<rparr>) = skipped a"
  by (simp add: skipped_def fun_eq_iff)

lemma missing_ktrans_args [simp]: "missing w (a\<lparr>ktrans_args := k\<rparr>) = missing w a"
  by (simp add: missing_def fun_eq_iff)

lemma dep_path_ktrans_args [simp]: "dep_path w (a\<lparr>ktrans_args := k\<rparr>) = dep_path w a"
  by (simp add: dep_path_def fun_eq_iff)

lemma main_dependency_mode:
  assumes "absolutize w (ktrans_args p) = Inr kargs"
    and "filter (\<lambda>arg. endswith arg KL_SUFFIX) kargs = kl_file # others"
    and "dep_output p \<or> ignore_syshdrs p"
  shows "main w p = dependency_output w (p\<lparr>ktrans_args := kargs\<rparr>) kl_file"
  using assms by (simp add: main_def Let_def)

lemma dependency_output_fatal:
  assumes "file_read w kl_file = Some source"
    and "snd (collect_deps w a [] (scan_for_inc_stmts source)) = Inl h"
  shows "dependency_output w a kl_file =
           \<lparr>status = Exit 65, stdout = [], stderr = fatal_error h,
            events = Read kl_file # fst (collect_deps w a [] (scan_for_inc_stmts source)),
            workspace = None\<rparr>"
proof -
  obtain ev r where c: "collect_deps w a [] (scan_for_inc_stmts source) = (ev, r)"
    by (cases "collect_deps w a [] (scan_for_inc_stmts source)")
  with assms(2) have "r = Inl h" by simp
  with c assms(1) show ?thesis
    by (simp add: dependency_output_def Let_def OS_EX_DATAERR_def)
qed

text \<open>
  Claim C2. In dependency-only mode (\<^verbatim>\<open>-M\<close> or \<^verbatim>\<open>-MM\<close> and a source file among the
  arguments), when the scanned source has a header that is not absolute, not excluded
  and in no include directory, and \<^verbatim>\<open>-MG\<close> was not given, the program exits with code
  65 and writes nothing to standard output; standard error holds exactly
  \<^verbatim>\<open>ktransw: fatal error: \<close>, the first such header of the source (the header
  itself when it is the only one), \<^verbatim>\<open>: No such file or directory\<close> and a line feed;
  and no file is opened for writing or written, so the file of \<^verbatim>\<open>-MF\<close> is never
  touched.
\<close>

theorem missing_header_is_fatal:
  assumes "absolutize w (ktrans_args p) = Inr kargs"
    and "filter (\<lambda>arg. endswith arg KL_SUFFIX) kargs = kl_file # others"
    and "dep_output p \<or> ignore_syshdrs p"
    and "file_read w kl_file = Some source"
    and "hdr \<in> set (scan_for_inc_stmts source)"
    and "\<not> path_isabs w hdr"
    and "\<not> (ignore_syshdrs p \<and> is_system_header hdr)"
    and "snd (find_hdr_in_incdirs w hdr (include_dirs p)) = None"
    and "\<not> ignore_missing_hdrs p"
  shows "status (main w p) = Exit 65 \<and>
         stdout (main w p) = [] \<and>
         (\<exists>pre h post. scan_for_inc_stmts source = pre @ h # post \<and>
            (\<forall>x\<in>set pre. \<not> missing w p x) \<and> missing w p h \<and>
            stderr (main w p) =
              ''ktransw: fatal error: '' @ h @ '': No such file or directory'' @ [CHR 0x0A]) \<and>
         ((\<forall>x\<in>set (scan_for_inc_stmts source). missing w p x \<longrightarrow> x = hdr) \<longrightarrow>
            stderr (main w p) =
              ''ktransw: fatal error: '' @ hdr @ '': No such file or directory'' @ [CHR 0x0A]) \<and>
         (\<forall>e\<in>set (events (main w p)). (\<forall>f. e \<noteq> Open_write f) \<and> (\<forall>f t. e \<noteq> Write f t))"
proof -
  let ?a = "p\<lparr>ktrans_args := kargs\<rparr>"
  let ?incs = "scan_for_inc_stmts source"
  have main: "main w p = dependency_output w ?a kl_file"
    using assms(1-3) by (rule main_dependency_mode)
  have "missing w p hdr"
    using assms(6-8) by (simp add: missing_def skipped_def)
  with assms(5) have "\<exists>x\<in>set ?incs. missing w p x" by blast
  from split_list_first_prop [OF this]
  obtain pre h post where split: "?incs = pre @ h # post"
    and h: "missing w p h" and pre: "\<forall>x\<in>set pre. \<not> missing w p x"
    by blast
  have "snd (collect_deps w ?a [] ?incs) = Inl h"
    unfolding split using assms(9) h pre
    by (intro collect_deps_first_missing) simp_all
  from dependency_output_fatal [OF assms(4) this]
  have out: "main w p =
      \<lparr>status = Exit 65, stdout = [], stderr = fatal_error h,
       events = Read kl_file # fst (collect_deps w ?a [] ?incs), workspace = None\<rparr>"
    by (simp add: main)
  have ev: "(\<forall>f. e \<noteq> Open_write f) \<and> (\<forall>f t. e \<noteq> Write f t)"
    if "e \<in> set (events (main w p))" for e
    using that collect_deps_events [of e w ?a "[]" ?incs] by (auto simp: out)
  have only: "h = hdr" if "\<forall>x\<in>set ?incs. missing w p x \<longrightarrow> x = hdr"
    using that h split by simp
  have st: "status (main w p) = Exit 65" and so: "stdout (main w p) = []"
    and se: "stderr (main w p) =
              ''ktransw: fatal error: '' @ h @ '': No such file or directory'' @ [CHR 0x0A]"
    by (simp_all add: out fatal_error_def newline_def)
  from split pre h se
  have first: "\<exists>pre h post. scan_for_inc_stmts source = pre @ h # post \<and>
            (\<forall>x\<in>set pre. \<not> missing w p x) \<and> missing w p h \<and>
            stderr (main w p) =
              ''ktransw: fatal error: '' @ h @ '': No such file or directory'' @ [CHR 0x0A]"
    by blast
  from only se
  have uniq: "(\<forall>x\<in>set (scan_for_inc_stmts source). missing w p x \<longrightarrow> x = hdr) \<longrightarrow>
            stderr (main w p) =
              ''ktransw: fatal error: '' @ hdr @ '': No such file or directory'' @ [CHR 0x0A]"
    by simp
  from ev have quiet: "\<forall>e\<in>set (events (main w p)). (\<forall>f. e \<noteq> Open_write f) \<and> (\<forall>f t. e \<noteq> Write f t)"
    by blast
  from st so first uniq quiet show ?thesis
    by (intro conjI)
qed

lemma sample_scan:
  "scan_for_inc_stmts sample_source =
     [''foo.kl'', ''klevkeys.kl'', ''gen.kl'', ''foo.kl'', ''/abs/bar.kl'']"
  by code_simp

lemma sample_absolutize:
  "absolutize sample_world [''/src/main.kl'', ''/config'', ''robot.ini'', ''other.kl''] =
     Inr [''/src/main.kl'', ''/config'', ''/cwd/robot.ini'', ''/cwd/other.kl'']"
  by (simp add: sample_world_def)

lemma sample_kl_files:
  "filter (\<lambda>arg. endswith arg KL_SUFFIX)
     [''/src/main.kl'', ''/config'', ''/cwd/robot.ini'', ''/cwd/other.kl''] =
   [''/src/main.kl'', ''/cwd/other.kl'']"
  by (simp add: endswith_def KL_SUFFIX_def suffix_def)

theorem missing_header_is_fatal_witness:
  "status (main sample_world (sample_args\<lparr>dep_output := True, dep_fname := Some ''out.d''\<rparr>)) = Exit 65 \<and>
   stdout (main sample_world (sample_args\<lparr>dep_output := True, dep_fname := Some ''out.d''\<rparr>)) = [] \<and>
   stderr (main sample_world (sample_args\<lparr>dep_output := True, dep_fname := Some ''out.d''\<rparr>)) =
     ''ktransw: fatal error: gen.kl: No such file or directory'' @ [CHR 0x0A] \<and>
   Open_write ''out.d'' \<notin> set (events (main sample_world (sample_args\<lparr>dep_output := True, dep_fname := Some ''out.d''\<rparr>)))"
proof -
  let ?a = "sample_args\<lparr>dep_output := True, dep_fname := Some ''out.d''\<rparr>"
  have 1: "absolutize sample_world (ktrans_args ?a) =
      Inr [''/src/main.kl'', ''/config'', ''/cwd/robot.ini'', ''/cwd/other.kl'']"
    using sample_absolutize by (simp add: sample_args_def)
  have 2: "filter (\<lambda>arg. endswith arg KL_SUFFIX)
      [''/src/main.kl'', ''/config'', ''/cwd/robot.ini'', ''/cwd/other.kl''] =
      ''/src/main.kl'' # [''/cwd/other.kl'']"
    using sample_kl_files by simp
  have 3: "dep_output ?a \<or> ignore_syshdrs ?a" by simp
  have 4: "file_read sample_world ''/src/main.kl'' = Some sample_source"
    by (simp add: sample_world_def)
  have 5: "''gen.kl'' \<in> set (scan_for_inc_stmts sample_source)"
    by (simp add: sample_scan)
  have 6: "\<not> path_isabs sample_world ''gen.kl''"
    by (simp add: sample_world_def)
  have 7: "\<not> (ignore_syshdrs ?a \<and> is_system_header ''gen.kl'')"
    by (simp add: sample_args_def)
  have 8: "snd (find_hdr_in_incdirs sample_world ''gen.kl'' (include_dirs ?a)) = None"
    by (simp add: sample_args_def sample_world_def)
  have 9: "\<not> ignore_missing_hdrs ?a"
    by (simp add: sample_args_def)
  have only: "\<forall>x\<in>set (scan_for_inc_stmts sample_source). missing sample_world ?a x \<longrightarrow> x = ''gen.kl''"
    by (simp add: sample_scan missing_def skipped_def sample_args_def sample_world_def)
  from missing_header_is_fatal [OF 1 2 3 4 5 6 7 8 9] only
  have "status (main sample_world ?a) = Exit 65"
    and "stdout (main sample_world ?a) = []"
    and "stderr (main sample_world ?a) =
          ''ktransw: fatal error: '' @ ''gen.kl'' @ '': No such file or directory'' @ [CHR 0x0A]"
    and "\<forall>e\<in>set (events (main sample_world ?a)). (\<forall>f. e \<noteq> Open_write f) \<and> (\<forall>f t. e \<noteq> Write f t)"
    by blast+
  then show ?thesis
    by (auto simp: fatal_error_def)
qed





subsection \<open>System headers\<close>

lemma collect_deps_drop_skipped:
  "collect_deps w a deps (filter (\<lambda>h. \<not> skipped a h) incs) = collect_deps w a deps incs"
proof (induction incs arbitrary: deps)
  case Nil
  then show ?case by simp
next
  case (Cons hdr incs)
  show ?case
  proof (cases "skipped a hdr")
    case True
    then have "dep_of_hdr w a hdr = ([], Skip)"
      by (simp add: dep_of_hdr_def skipped_def)
    with True Cons show ?thesis by simp
  next
    case False
    with Cons show ?thesis by (simp split: prod.splits step.splits)
  qed
qed

text \<open>
  Claim C5. With \<^verbatim>\<open>-MM\<close>, a header whose name is, character for character, one of
  the fixed list is skipped by the loop without a single probe of the file system; a
  header that is not in the list is never classified as a system header and never
  skipped; and the whole loop, its probes and its result, is the same as on the
  headers with the system headers left out.
\<close>

theorem system_headers_excluded:
  assumes "ignore_syshdrs a"
  shows "(hdr \<in> set system_headers \<longrightarrow> dep_of_hdr w a hdr = ([], Skip)) \<and>
         (hdr \<notin> set system_headers \<longrightarrow>
            \<not> is_system_header hdr \<and> snd (dep_of_hdr w a hdr) \<noteq> Skip) \<and>
         collect_deps w a deps (filter (\<lambda>h. h \<notin> set system_headers) incs) =
           collect_deps w a deps incs"
proof (intro conjI impI)
  assume "hdr \<in> set system_headers"
  with assms show "dep_of_hdr w a hdr = ([], Skip)"
    by (simp add: dep_of_hdr_def is_system_header_def)
next
  assume n: "hdr \<notin> set system_headers"
  then show "\<not> is_system_header hdr"
    by (simp add: is_system_header_def)
  from n have "\<not> skipped a hdr"
    by (simp add: skipped_def is_system_header_def)
  then show "snd (dep_of_hdr w a hdr) \<noteq> Skip"
    by (simp add: dep_of_hdr_cases)
next
  from assms have "(\<lambda>h. h \<notin> set system_headers) = (\<lambda>h. \<not> skipped a h)"
    by (simp add: skipped_def is_system_header_def fun_eq_iff)
  then show "collect_deps w a deps (filter (\<lambda>h. h \<notin> set system_headers) incs) =
           collect_deps w a deps incs"
    by (simp add: collect_deps_drop_skipped)
qed

theorem system_headers_excluded_witness:
  "dep_of_hdr sample_world (sample_args\<lparr>ignore_syshdrs := True, ignore_missing_hdrs := True\<rparr>)
     ''klevkeys.kl'' = ([], Skip) \<and>
   snd (dep_of_hdr sample_world (sample_args\<lparr>ignore_syshdrs := True, ignore_missing_hdrs := True\<rparr>)
     ''KLEVKEYS.KL'') \<noteq> Skip \<and>
   collect_deps sample_world (sample_args\<lparr>ignore_syshdrs := True, ignore_missing_hdrs := True\<rparr>) []
     (scan_for_inc_stmts sample_source) =
     ([Exists ''/inc1/foo.kl'', Exists ''/inc2/foo.kl'',
       Exists ''/inc1/gen.kl'', Exists ''/inc2/gen.kl'', Exists ''/inc3/gen.kl'',
       Exists ''/inc1/foo.kl'', Exists ''/inc2/foo.kl''],
      Inr [''/inc2/foo.kl'', ''gen.kl'', ''/inc2/foo.kl'', ''/abs/bar.kl''])"
proof -
  let ?a = "sample_args\<lparr>ignore_syshdrs := True, ignore_missing_hdrs := True\<rparr>"
  have flag: "ignore_syshdrs ?a" by simp
  have yes: "''klevkeys.kl'' \<in> set system_headers"
    by (simp add: system_headers_def)
  have no: "''KLEVKEYS.KL'' \<notin> set system_headers"
    by (simp add: system_headers_def)
  have rest: "filter (\<lambda>h. h \<notin> set system_headers) (scan_for_inc_stmts sample_source) =
      [''foo.kl'', ''gen.kl'', ''foo.kl'', ''/abs/bar.kl'']"
    by (simp add: sample_scan system_headers_def)
  have run: "collect_deps sample_world ?a [] [''foo.kl'', ''gen.kl'', ''foo.kl'', ''/abs/bar.kl''] =
     ([Exists ''/inc1/foo.kl'', Exists ''/inc2/foo.kl'',
       Exists ''/inc1/gen.kl'', Exists ''/inc2/gen.kl'', Exists ''/inc3/gen.kl'',
       Exists ''/inc1/foo.kl'', Exists ''/inc2/foo.kl''],
      Inr [''/inc2/foo.kl'', ''gen.kl'', ''/inc2/foo.kl'', ''/abs/bar.kl''])"
    by (simp add: dep_of_hdr_def resolve_hdr_path_def is_system_header_def system_headers_def
        sample_args_def sample_world_def)
  from system_headers_excluded [OF flag, of "''klevkeys.kl''" sample_world] yes
  have 1: "dep_of_hdr sample_world ?a ''klevkeys.kl'' = ([], Skip)" by blast
  from system_headers_excluded [OF flag, of "''KLEVKEYS.KL''" sample_world] no
  have 2: "snd (dep_of_hdr sample_world ?a ''KLEVKEYS.KL'') \<noteq> Skip" by blast
  from system_headers_excluded [OF flag, of _ sample_world "[]" "scan_for_inc_stmts sample_source"]
  have "collect_deps sample_world ?a [] (scan_for_inc_stmts sample_source) =
        collect_deps sample_world ?a []
          (filter (\<lambda>h. h \<notin> set system_headers) (scan_for_inc_stmts sample_source))"
    by simp
  with rest run have 3: "collect_deps sample_world ?a [] (scan_for_inc_stmts sample_source) =
     ([Exists ''/inc1/foo.kl'', Exists ''/inc2/foo.kl'',
       Exists ''/inc1/gen.kl'', Exists ''/inc2/gen.kl'', Exists ''/inc3/gen.kl'',
       Exists ''/inc1/foo.kl'', Exists ''/inc2/foo.kl''],
      Inr [''/inc2/foo.kl'', ''gen.kl'', ''/inc2/foo.kl'', ''/abs/bar.kl''])"
    by simp
  from 1 2 3 show ?thesis by blast
qed

subsection \<open>The emitted dependency list\<close>

lemma dependency_output_ok:
  assumes "file_read w kl_file = Some source"
    and "status (dependency_output w a kl_file) = Exit 0"
  shows "snd (collect_deps w a [] (scan_for_inc_stmts source)) =
           Inr (map (dep_path w a) (filter (\<lambda>h. \<not> skipped a h) (scan_for_inc_stmts source)))"
proof -
  obtain ev r where c: "collect_deps w a [] (scan_for_inc_stmts source) = (ev, r)"
    by (cases "collect_deps w a [] (scan_for_inc_stmts source)")
  have "\<exists>ds. r = Inr ds"
  proof (cases r)
    case (Inl h)
    with assms c show ?thesis
      by (simp add: dependency_output_def Let_def OS_EX_DATAERR_def)
  next
    case (Inr ds)
    then show ?thesis by blast
  qed
  then obtain ds where r: "r = Inr ds" by blast
  with c have "snd (collect_deps w a [] (scan_for_inc_stmts source)) = Inr ds" by simp
  from collect_deps_Inr [OF this] this show ?thesis by simp
qed

lemma str_join_concat:
  "str_join sep (x # xs) = x @ concat (map (\<lambda>y. sep @ y) xs)"
  by (induction xs arbitrary: x) simp_all

lemma count_list_map_filter:
  "count_list (map f (filter P xs)) y = length (filter (\<lambda>x. P x \<and> f x = y) xs)"
  by (induction xs) simp_all

text \<open>
  Claim C4 as stated fails: the sample source includes \<^verbatim>\<open>foo.kl\<close> twice, and the rule
  the program writes, given here character by character, lists \<^verbatim>\<open>/inc2/foo.kl\<close>
  twice.
\<close>

theorem dependency_list_keeps_duplicates:
  "status (main sample_world (sample_args\<lparr>dep_output := True, ignore_missing_hdrs := True\<rparr>)) = Exit 0 \<and>
   stdout (main sample_world (sample_args\<lparr>dep_output := True, ignore_missing_hdrs := True\<rparr>)) =
     ''main.pc : /inc2/foo.kl '' @ [CHR 0x5C, CHR 0x0A, CHR 0x09] @
     ''/inc3/klevkeys.kl '' @ [CHR 0x5C, CHR 0x0A, CHR 0x09] @
     ''gen.kl '' @ [CHR 0x5C, CHR 0x0A, CHR 0x09] @
     ''/inc2/foo.kl '' @ [CHR 0x5C, CHR 0x0A, CHR 0x09] @
     ''/abs/bar.kl'' @ [CHR 0x0A]"
proof -
  let ?a = "sample_args\<lparr>dep_output := True, ignore_missing_hdrs := True\<rparr>"
  have 1: "absolutize sample_world (ktrans_args ?a) =
      Inr [''/src/main.kl'', ''/config'', ''/cwd/robot.ini'', ''/cwd/other.kl'']"
    using sample_absolutize by (simp add: sample_args_def)
  have 2: "filter (\<lambda>arg. endswith arg KL_SUFFIX)
      [''/src/main.kl'', ''/config'', ''/cwd/robot.ini'', ''/cwd/other.kl''] =
      ''/src/main.kl'' # [''/cwd/other.kl'']"
    using sample_kl_files by simp
  have 3: "dep_output ?a \<or> ignore_syshdrs ?a" by simp
  have run: "snd (collect_deps sample_world
        (?a\<lparr>ktrans_args := [''/src/main.kl'', ''/config'', ''/cwd/robot.ini'', ''/cwd/other.kl'']\<rparr>) []
        [''foo.kl'', ''klevkeys.kl'', ''gen.kl'', ''foo.kl'', ''/abs/bar.kl'']) =
      Inr [''/inc2/foo.kl'', ''/inc3/klevkeys.kl'', ''gen.kl'', ''/inc2/foo.kl'', ''/abs/bar.kl'']"
    by (simp add: dep_of_hdr_def resolve_hdr_path_def sample_args_def sample_world_def)
  have tgt: "dep_target_name sample_world
        (?a\<lparr>ktrans_args := [''/src/main.kl'', ''/config'', ''/cwd/robot.ini'', ''/cwd/other.kl'']\<rparr>)
        ''/src/main.kl'' = ''main.pc''"
    by (simp add: dep_target_name_def sample_args_def sample_world_def PCODE_SUFFIX_def)
  have rd: "file_read sample_world ''/src/main.kl'' = Some sample_source"
    by (simp add: sample_world_def)
  have "status (main sample_world ?a) = Exit 0 \<and>
      stdout (main sample_world ?a) = dep_lines ''main.pc''
        [''/inc2/foo.kl'', ''/inc3/klevkeys.kl'', ''gen.kl'', ''/inc2/foo.kl'', ''/abs/bar.kl''] False"
    unfolding main_dependency_mode [OF 1 2 3]
    using run tgt rd
    by (cases "collect_deps sample_world
        (?a\<lparr>ktrans_args := [''/src/main.kl'', ''/config'', ''/cwd/robot.ini'', ''/cwd/other.kl'']\<rparr>) []
        [''foo.kl'', ''klevkeys.kl'', ''gen.kl'', ''foo.kl'', ''/abs/bar.kl'']")
      (simp add: dependency_output_def Let_def sample_scan sample_args_def)
  then show ?thesis
    by (simp add: dep_lines_def backslash_def newline_def tab_def)
qed

text \<open>
  Claim C4, amended. Let \<open>deps\<close> hold, in the order of the source, one entry for each
  scanned header that is not skipped: the path the loop computes for it. A path then
  occurs in \<open>deps\<close> as many times as headers of the source lead to it, and the rule the
  program emits is the target, \<^verbatim>\<open> : \<close>, and every entry of \<open>deps\<close> in that order, each
  after the first preceded by a blank, a backslash, a line feed and a tab; with
  \<^verbatim>\<open>-MP\<close> it is followed by one line per entry, the entry and a colon. Nothing is
  removed on the way. The rule goes to standard output, or is the last thing written
  to the file of \<^verbatim>\<open>-MF\<close>.
\<close>

theorem dependency_list_in_encounter_order:
  assumes "file_read w kl_file = Some source"
    and "status (dependency_output w a kl_file) = Exit 0"
    and "deps = map (dep_path w a) (filter (\<lambda>h. \<not> skipped a h) (scan_for_inc_stmts source))"
    and "rule =
           dep_target_name w a kl_file @ '' : '' @
           (case deps of [] \<Rightarrow> []
            | d # ds \<Rightarrow> d @ concat (map (\<lambda>x. '' '' @ [CHR 0x5C, CHR 0x0A, CHR 0x09] @ x) ds)) @
           [CHR 0x0A] @
           (if add_phony_tgt_for_deps a
            then (case deps of [] \<Rightarrow> []
                  | d # ds \<Rightarrow> d @ '':'' @ concat (map (\<lambda>x. [CHR 0x0A] @ x @ '':'') ds)) @
                 [CHR 0x0A]
            else [])"
  shows "(\<forall>x. count_list deps x =
            length (filter (\<lambda>h. \<not> skipped a h \<and> dep_path w a h = x) (scan_for_inc_stmts source))) \<and>
         snd (collect_deps w a [] (scan_for_inc_stmts source)) = Inr deps \<and>
         (\<not> truthy (dep_fname a) \<longrightarrow> stdout (dependency_output w a kl_file) = rule) \<and>
         (truthy (dep_fname a) \<longrightarrow>
            stdout (dependency_output w a kl_file) = [] \<and>
            last (events (dependency_output w a kl_file)) = Write (the (dep_fname a)) rule)"
proof -
  obtain ev r where c: "collect_deps w a [] (scan_for_inc_stmts source) = (ev, r)"
    by (cases "collect_deps w a [] (scan_for_inc_stmts source)")
  from dependency_output_ok [OF assms(1,2)] have run: "snd (collect_deps w a [] (scan_for_inc_stmts source)) = Inr deps"
    by (simp add: assms(3))
  with c have r: "r = Inr deps"
    by simp
  have emitted: "dep_lines (dep_target_name w a kl_file) deps (add_phony_tgt_for_deps a) = rule"
    unfolding assms(4)
    by (cases deps)
      (simp_all add: dep_lines_def str_join_concat backslash_def newline_def tab_def comp_def)
  have count: "\<forall>x. count_list deps x =
      length (filter (\<lambda>h. \<not> skipped a h \<and> dep_path w a h = x) (scan_for_inc_stmts source))"
    unfolding assms(3) by (simp add: count_list_map_filter)
  have out: "\<not> truthy (dep_fname a) \<longrightarrow> stdout (dependency_output w a kl_file) = rule"
    using assms(1,2) c r emitted
    by (simp add: dependency_output_def Let_def split: if_splits)
  have sink: "truthy (dep_fname a) \<longrightarrow>
            stdout (dependency_output w a kl_file) = [] \<and>
            last (events (dependency_output w a kl_file)) = Write (the (dep_fname a)) rule"
    using assms(1,2) c r emitted
    by (simp add: dependency_output_def Let_def split: if_splits)
  from count run out sink show ?thesis
    by (intro conjI)
qed

theorem dependency_list_in_encounter_order_witness:
  "count_list [''/inc2/foo.kl'', ''/inc3/klevkeys.kl'', ''gen.kl'', ''/inc2/foo.kl'', ''/abs/bar.kl'']
     ''/inc2/foo.kl'' = 2 \<and>
   stdout (dependency_output sample_world
      (sample_args\<lparr>ignore_missing_hdrs := True, add_phony_tgt_for_deps := True\<rparr>) ''/src/main.kl'') =
     ''main.pc : /inc2/foo.kl '' @ [CHR 0x5C, CHR 0x0A, CHR 0x09] @
     ''/inc3/klevkeys.kl '' @ [CHR 0x5C, CHR 0x0A, CHR 0x09] @
     ''gen.kl '' @ [CHR 0x5C, CHR 0x0A, CHR 0x09] @
     ''/inc2/foo.kl '' @ [CHR 0x5C, CHR 0x0A, CHR 0x09] @
     ''/abs/bar.kl'' @ [CHR 0x0A] @
     ''/inc2/foo.kl:'' @ [CHR 0x0A] @ ''/inc3/klevkeys.kl:'' @ [CHR 0x0A] @ ''gen.kl:'' @ [CHR 0x0A] @
     ''/inc2/foo.kl:'' @ [CHR 0x0A] @ ''/abs/bar.kl:'' @ [CHR 0x0A]"
proof -
  let ?a = "sample_args\<lparr>ignore_missing_hdrs := True, add_phony_tgt_for_deps := True\<rparr>"
  let ?deps = "[''/inc2/foo.kl'', ''/inc3/klevkeys.kl'', ''gen.kl'', ''/inc2/foo.kl'', ''/abs/bar.kl'']"
  let ?rule = "dep_target_name sample_world ?a ''/src/main.kl'' @ '' : '' @
           (case ?deps of [] \<Rightarrow> []
            | d # ds \<Rightarrow> d @ concat (map (\<lambda>x. '' '' @ [CHR 0x5C, CHR 0x0A, CHR 0x09] @ x) ds)) @
           [CHR 0x0A] @
           (if add_phony_tgt_for_deps ?a
            then (case ?deps of [] \<Rightarrow> []
                  | d # ds \<Rightarrow> d @ '':'' @ concat (map (\<lambda>x. [CHR 0x0A] @ x @ '':'') ds)) @
                 [CHR 0x0A]
            else [])"
  have rd: "file_read sample_world ''/src/main.kl'' = Some sample_source"
    by (simp add: sample_world_def)
  have run: "snd (collect_deps sample_world ?a []
        [''foo.kl'', ''klevkeys.kl'', ''gen.kl'', ''foo.kl'', ''/abs/bar.kl'']) = Inr ?deps"
    by (simp add: dep_of_hdr_def resolve_hdr_path_def sample_args_def sample_world_def)
  have ok: "status (dependency_output sample_world ?a ''/src/main.kl'') = Exit 0"
    using run rd
    by (cases "collect_deps sample_world ?a [] (scan_for_inc_stmts sample_source)")
       (simp add: dependency_output_def Let_def sample_scan sample_args_def)
  have sink: "\<not> truthy (dep_fname ?a)"
    by (simp add: sample_args_def)
  have tgt: "dep_target_name sample_world ?a ''/src/main.kl'' = ''main.pc''"
    by (simp add: dep_target_name_def sample_args_def sample_world_def PCODE_SUFFIX_def)
  have phony: "add_phony_tgt_for_deps ?a"
    by simp
  have deps: "?deps = map (dep_path sample_world ?a)
        (filter (\<lambda>h. \<not> skipped ?a h) (scan_for_inc_stmts sample_source))"
    by (simp add: sample_scan skipped_def dep_path_def resolve_hdr_path_def
        sample_args_def sample_world_def)
  note inst = dependency_list_in_encounter_order [OF rd ok deps refl [of ?rule]]
  from inst [THEN conjunct1, rule_format, of "''/inc2/foo.kl''"]
  have "count_list ?deps ''/inc2/foo.kl'' =
      length (filter (\<lambda>h. \<not> skipped ?a h \<and> dep_path sample_world ?a h = ''/inc2/foo.kl'')
        (scan_for_inc_stmts sample_source))" .
  also have "\<dots> = 2"
    by (simp add: sample_scan skipped_def dep_path_def resolve_hdr_path_def
        sample_args_def sample_world_def)
  finally have 1: "count_list ?deps ''/inc2/foo.kl'' = 2" .
  from inst [THEN conjunct2, THEN conjunct2, THEN conjunct1, rule_format, OF sink]
  have "stdout (dependency_output sample_world ?a ''/src/main.kl'') = ?rule" .
  then have 2: "stdout (dependency_output sample_world ?a ''/src/main.kl'') =
     ''main.pc : /inc2/foo.kl '' @ [CHR 0x5C, CHR 0x0A, CHR 0x09] @
     ''/inc3/klevkeys.kl '' @ [CHR 0x5C, CHR 0x0A, CHR 0x09] @
     ''gen.kl '' @ [CHR 0x5C, CHR 0x0A, CHR 0x09] @
     ''/inc2/foo.kl '' @ [CHR 0x5C, CHR 0x0A, CHR 0x09] @
     ''/abs/bar.kl'' @ [CHR 0x0A] @
     ''/inc2/foo.kl:'' @ [CHR 0x0A] @ ''/inc3/klevkeys.kl:'' @ [CHR 0x0A] @ ''gen.kl:'' @ [CHR 0x0A] @
     ''/inc2/foo.kl:'' @ [CHR 0x0A] @ ''/abs/bar.kl:'' @ [CHR 0x0A]"
    by (simp add: tgt)
  from 1 2 show ?thesis
    by (intro conjI)
qed

subsection \<open>An include directory that is not absolute\<close>

text \<open>
  Claim C1, at an include directory given relative to the working directory. The
  header \<^verbatim>\<open>foo.kl\<close> is not absolute and the only include directory, \<^verbatim>\<open>./inc\<close>, has it.
  The resolver probes \<^verbatim>\<open>./inc/foo.kl\<close> and returns it: the join with the directory as
  it was given. That is not an absolute path, \<^verbatim>\<open>os.path.abspath\<close> would change it, and
  the rule that \<^verbatim>\<open>main\<close> emits names the relative path.
\<close>

theorem relative_directory_not_made_absolute:
  "\<not> path_isabs relative_world ''foo.kl'' \<and>
   find_hdr_in_incdirs relative_world ''foo.kl'' [''./inc''] = ([Exists ''./inc/foo.kl''], Some ''./inc'') \<and>
   resolve_hdr_path relative_world [''./inc''] ''foo.kl'' =
     ([Exists ''./inc/foo.kl''], Some ''./inc/foo.kl'') \<and>
   \<not> path_isabs relative_world ''./inc/foo.kl'' \<and>
   path_abspath relative_world ''./inc/foo.kl'' \<noteq> ''./inc/foo.kl'' \<and>
   status (main relative_world relative_args) = Exit 0 \<and>
   stdout (main relative_world relative_args) = ''main.pc : ./inc/foo.kl'' @ [CHR 0x0A] \<and>
   events (main relative_world relative_args) = [Read ''/src/main.kl'', Exists ''./inc/foo.kl'']"
proof -
  have rel: "\<not> path_isabs relative_world ''foo.kl''"
    by (simp add: relative_world_def sample_world_def)
  have find: "find_hdr_in_incdirs relative_world ''foo.kl'' [''./inc''] =
      ([Exists ''./inc/foo.kl''], Some ''./inc'')"
    by (simp add: relative_world_def sample_world_def)
  have res: "resolve_hdr_path relative_world [''./inc''] ''foo.kl'' =
      ([Exists ''./inc/foo.kl''], Some ''./inc/foo.kl'')"
    by (simp add: resolve_hdr_path_def relative_world_def sample_world_def)
  have notabs: "\<not> path_isabs relative_world ''./inc/foo.kl''"
    by (simp add: relative_world_def sample_world_def)
  have other: "path_abspath relative_world ''./inc/foo.kl'' \<noteq> ''./inc/foo.kl''"
    by (simp add: relative_world_def sample_world_def)
  have 1: "absolutize relative_world (ktrans_args relative_args) = Inr [''/src/main.kl'']"
    by (simp add: relative_args_def relative_world_def sample_world_def)
  have 2: "filter (\<lambda>arg. endswith arg KL_SUFFIX) [''/src/main.kl''] = ''/src/main.kl'' # []"
    by (simp add: endswith_def KL_SUFFIX_def suffix_def)
  have 3: "dep_output relative_args \<or> ignore_syshdrs relative_args"
    by (simp add: relative_args_def)
  have rd: "file_read relative_world ''/src/main.kl'' = Some (''%INCLUDE foo.kl'' @ [newline])"
    by (simp add: relative_world_def)
  have scan: "scan_for_inc_stmts (''%INCLUDE foo.kl'' @ [newline]) = [''foo.kl'']"
    by code_simp
  have run: "collect_deps relative_world (relative_args\<lparr>ktrans_args := [''/src/main.kl'']\<rparr>) []
      [''foo.kl''] = ([Exists ''./inc/foo.kl''], Inr [''./inc/foo.kl''])"
    by (simp add: dep_of_hdr_def resolve_hdr_path_def relative_args_def sample_args_def
        relative_world_def sample_world_def)
  have tgt: "dep_target_name relative_world (relative_args\<lparr>ktrans_args := [''/src/main.kl'']\<rparr>)
      ''/src/main.kl'' = ''main.pc''"
    by (simp add: dep_target_name_def relative_args_def sample_args_def relative_world_def
        sample_world_def PCODE_SUFFIX_def)
  have sink: "dep_fname (relative_args\<lparr>ktrans_args := [''/src/main.kl'']\<rparr>) = None"
    "\<not> add_phony_tgt_for_deps (relative_args\<lparr>ktrans_args := [''/src/main.kl'']\<rparr>)"
    by (simp_all add: relative_args_def sample_args_def)
  have out: "dependency_output relative_world (relative_args\<lparr>ktrans_args := [''/src/main.kl'']\<rparr>)
      ''/src/main.kl'' =
      \<lparr>status = Exit 0, stdout = dep_lines ''main.pc'' [''./inc/foo.kl''] False, stderr = [],
       events = [Read ''/src/main.kl'', Exists ''./inc/foo.kl''], workspace = None\<rparr>"
    using rd scan run tgt sink
    by (simp add: dependency_output_def Let_def)
  have st: "status (main relative_world relative_args) = Exit 0"
    unfolding main_dependency_mode [OF 1 2 3] out by simp
  have so: "stdout (main relative_world relative_args) = ''main.pc : ./inc/foo.kl'' @ [CHR 0x0A]"
    unfolding main_dependency_mode [OF 1 2 3] out
    by (simp add: dep_lines_def newline_def)
  have ev: "events (main relative_world relative_args) =
      [Read ''/src/main.kl'', Exists ''./inc/foo.kl'']"
    unfolding main_dependency_mode [OF 1 2 3] out by simp
  from rel find res notabs other st so ev show ?thesis
    by (intro conjI)
qed

subsection \<open>The branches of main\<close>

lemma first_kl_file:
  assumes "kargs = pre @ kl_file # post"
    and "\<forall>arg\<in>set pre. \<not> endswith arg KL_SUFFIX"
    and "endswith kl_file KL_SUFFIX"
  shows "filter (\<lambda>arg. endswith arg KL_SUFFIX) kargs =
           kl_file # filter (\<lambda>arg. endswith arg KL_SUFFIX) post"
  using assms by simp

lemma main_dry_run:
  assumes "absolutize w (ktrans_args p) = Inr kargs"
    and "filter (\<lambda>arg. endswith arg KL_SUFFIX) kargs = kl_file # others"
    and "\<not> dep_output p" "\<not> ignore_syshdrs p" "dry_run p"
  shows "main w p = \<lparr>status = Exit 0, stdout = [], stderr = [], events = [], workspace = None\<rparr>"
  using assms by (simp add: main_def Let_def)

lemma main_compile_mode:
  assumes "absolutize w (ktrans_args p) = Inr kargs"
    and "filter (\<lambda>arg. endswith arg KL_SUFFIX) kargs = kl_file # others"
    and "\<not> dep_output p" "\<not> ignore_syshdrs p" "\<not> dry_run p"
  shows "main w p =
           compile w (p\<lparr>ktrans_args := kargs\<rparr>) (exe_path w (ktrans_path p) KTRANS_BIN_NAME)
             (exe_path w (gpp_path p) GPP_BIN_NAME) kl_file"
  using assms by (simp add: main_def Let_def)

lemma main_passthrough:
  assumes "absolutize w (ktrans_args p) = Inr kargs"
    and "filter (\<lambda>arg. endswith arg KL_SUFFIX) kargs = []"
  shows "main w p = passthrough w (exe_path w (ktrans_path p) KTRANS_BIN_NAME) kargs"
  using assms by (simp add: main_def Let_def)

text \<open>
  Claim C6, at arguments without a source file. With \<^verbatim>\<open>--dry-run\<close>, neither \<^verbatim>\<open>-M\<close>
  nor \<^verbatim>\<open>-MM\<close>, and the one argument \<^verbatim>\<open>/ver\<close>, the test for a needed build comes
  before the test of the flag: the translator is called, and its return code, here 7,
  is the exit code. The option is documented as \<^emph>\<open>Do nothing, except checking
  parameters\<close>.
\<close>

theorem dry_run_still_runs_translator:
  "dry_run (sample_args\<lparr>dry_run := True, ktrans_args := [''/ver'']\<rparr>) \<and>
   \<not> dep_output (sample_args\<lparr>dry_run := True, ktrans_args := [''/ver'']\<rparr>) \<and>
   \<not> ignore_syshdrs (sample_args\<lparr>dry_run := True, ktrans_args := [''/ver'']\<rparr>) \<and>
   status (main sample_world (sample_args\<lparr>dry_run := True, ktrans_args := [''/ver'']\<rparr>)) = Exit 7 \<and>
   events (main sample_world (sample_args\<lparr>dry_run := True, ktrans_args := [''/ver'']\<rparr>)) =
     [Call [''ktrans.exe'', ''/ver'']]"
proof -
  let ?a = "sample_args\<lparr>dry_run := True, ktrans_args := [''/ver'']\<rparr>"
  have 1: "absolutize sample_world (ktrans_args ?a) = Inr [''/ver'']"
    by simp
  have 2: "filter (\<lambda>arg. endswith arg KL_SUFFIX) [''/ver''] = []"
    by (simp add: endswith_def KL_SUFFIX_def suffix_def)
  have exe: "exe_path sample_world (ktrans_path ?a) KTRANS_BIN_NAME = ''ktrans.exe''"
    by (simp add: sample_args_def KTRANS_BIN_NAME_def)
  have "main sample_world ?a = passthrough sample_world ''ktrans.exe'' [''/ver'']"
    using main_passthrough [OF 1 2] exe by simp
  then show ?thesis
    by (simp add: passthrough_def Let_def sample_world_def sample_args_def)
qed

text \<open>
  Where the flag is honoured. With \<^verbatim>\<open>--dry-run\<close>, neither \<^verbatim>\<open>-M\<close> nor \<^verbatim>\<open>-MM\<close>,
  arguments the argument loop accepts, and at least one of them ending in \<^verbatim>\<open>.kl\<close>,
  the program exits with code 0 and has done nothing: no process started, no
  temporary directory made, nothing read or written.
\<close>

theorem dry_run_stops_before_build:
  assumes "dry_run p" and "\<not> dep_output p" and "\<not> ignore_syshdrs p"
    and "absolutize w (ktrans_args p) = Inr kargs"
    and "\<exists>arg\<in>set kargs. endswith arg KL_SUFFIX"
  shows "main w p = \<lparr>status = Exit 0, stdout = [], stderr = [], events = [], workspace = None\<rparr>"
proof -
  from assms(5) have "filter (\<lambda>arg. endswith arg KL_SUFFIX) kargs \<noteq> []"
    by (simp add: filter_empty_conv)
  then obtain kl_file others
    where "filter (\<lambda>arg. endswith arg KL_SUFFIX) kargs = kl_file # others"
    by (cases "filter (\<lambda>arg. endswith arg KL_SUFFIX) kargs") auto
  from main_dry_run [OF assms(4) this assms(2,3,1)] show ?thesis .
qed

theorem dry_run_stops_before_build_witness:
  "main sample_world (sample_args\<lparr>dry_run := True\<rparr>) =
     \<lparr>status = Exit 0, stdout = [], stderr = [], events = [], workspace = None\<rparr>"
proof -
  let ?a = "sample_args\<lparr>dry_run := True\<rparr>"
  have 1: "dry_run ?a" by simp
  have 2: "\<not> dep_output ?a" "\<not> ignore_syshdrs ?a"
    by (simp_all add: sample_args_def)
  have 3: "absolutize sample_world (ktrans_args ?a) =
      Inr [''/src/main.kl'', ''/config'', ''/cwd/robot.ini'', ''/cwd/other.kl'']"
    using sample_absolutize by (simp add: sample_args_def)
  have 4: "\<exists>arg\<in>set [''/src/main.kl'', ''/config'', ''/cwd/robot.ini'', ''/cwd/other.kl''].
      endswith arg KL_SUFFIX"
    by (simp add: endswith_def KL_SUFFIX_def suffix_def)
  from dry_run_stops_before_build [OF 1 2 3 4] show ?thesis .
qed

subsection \<open>Replacing the temporary directory\<close>

lemma str_replace_absent:
  assumes "old \<noteq> []" and "\<not> sublist old s"
  shows "str_replace old new s = s"
  using assms
proof (induction s)
  case Nil
  then show ?case by simp
next
  case (Cons c cs)
  from Cons.prems have "\<not> prefix old (c # cs)"
    by (meson prefix_imp_sublist)
  moreover from Cons.prems have "\<not> sublist old cs"
    by (meson sublist_Cons_right)
  ultimately show ?case using Cons by simp
qed

lemma str_replace_first:
  assumes "old \<noteq> []" and "\<not> sublist old (u @ butlast old)"
  shows "str_replace old new (u @ old @ v) = u @ new @ str_replace old new v"
  using assms(2)
proof (induction u)
  case Nil
  from assms(1) obtain c cs where old: "old = c # cs" by (cases old) auto
  have "str_replace old new (old @ v) = new @ str_replace old new (drop (length old) (old @ v))"
    using assms(1) unfolding old by simp
  then show ?case by simp
next
  case (Cons c u)
  have "\<not> prefix old ((c # u) @ old @ v)"
  proof
    assume "prefix old ((c # u) @ old @ v)"
    then have "old = take (length old) ((c # u) @ old @ v)"
      by (metis append_eq_conv_conj prefix_def)
    also have "\<dots> = take (length old) ((c # u) @ butlast old)"
      using assms(1) by (simp add: take_Cons' butlast_conv_take)
    finally have "prefix old ((c # u) @ butlast old)"
      by (metis take_is_prefix)
    with Cons.prems show False
      by (meson prefix_imp_sublist)
  qed
  moreover from Cons.prems have "\<not> sublist old (u @ butlast old)"
    by (metis append_Cons sublist_Cons_right)
  ultimately show ?case using Cons.IH assms(1) by simp
qed

lemma str_replace_join:
  assumes "old \<noteq> []" and "\<forall>seg\<in>set segs. \<not> sublist old (seg @ butlast old)"
  shows "str_replace old new (str_join old segs) = str_join new segs"
  using assms(2)
proof (induction segs)
  case Nil
  with assms(1) show ?case by simp
next
  case (Cons x segs)
  show ?case
  proof (cases segs)
    case Nil
    from Cons.prems have "\<not> sublist old (x @ butlast old)" by simp
    then have "\<not> sublist old x"
      by (meson sublist_append_rightI sublist_order.order.trans sublist_order.order.refl)
    with assms(1) Nil show ?thesis by (simp add: str_replace_absent)
  next
    case (Cons y ys)
    with Cons.prems Cons.IH assms(1) show ?thesis
      by (simp add: str_replace_first)
  qed
qed

subsection \<open>Removing the workspace\<close>

lemma rmtree_listable_aux:
  "listable t \<Longrightarrow> t = Dir n0 ls0 rm0 cs0 \<Longrightarrow>
     fst (rmtree t) = None \<and>
     concat (map leaves (opt_list (snd (rmtree t)))) = filter (\<lambda>(n, ok). \<not> ok) (leaves t)"
  and rmtree_names_listable: "list_all listable ts \<Longrightarrow>
     fst (rmtree_names ts) = None \<and>
     concat (map leaves (snd (rmtree_names ts))) =
       filter (\<lambda>(n, ok). \<not> ok) (concat (map leaves ts))"
proof (induction t and ts arbitrary: n0 ls0 rm0 cs0 rule: rmtree_rmtree_names.induct)
  case (1 n ok)
  then show ?case by simp
next
  case (2 n ok)
  then show ?case by simp
next
  case (3 n ls rm cs)
  then show ?case
    by (cases "rmtree_names cs") (auto split: option.splits)
next
  case 4
  then show ?case by simp
next
  case (5 n ok cs)
  then show ?case
    by (cases "rmtree_names cs") auto
next
  case (6 n ok cs)
  then show ?case
    by (cases "rmtree_names cs") auto
next
  case (7 n ls rm ds cs)
  then show ?case
    by (cases "rmtree (Dir n ls rm ds)"; cases "rmtree_names cs") (auto split: option.splits)
qed

lemma rmtree_listable:
  assumes "listable (Dir n ls rm cs)"
  shows "fst (rmtree (Dir n ls rm cs)) = None"
    and "concat (map leaves (opt_list (snd (rmtree (Dir n ls rm cs))))) =
           filter (\<lambda>(n, ok). \<not> ok) (leaves (Dir n ls rm cs))"
  using rmtree_listable_aux [OF assms refl] by blast+

subsection \<open>Compile mode\<close>

lemma build_events:
  "events (build w a ktrans_exe gpp_exe kl_file dname) =
     [Popen False (gpp_command w a gpp_exe kl_file dname)] \<or>
   events (build w a ktrans_exe gpp_exe kl_file dname) =
     [Popen False (gpp_command w a gpp_exe kl_file dname),
      Popen True (ktrans_command w a ktrans_exe kl_file dname)]"
  by (simp add: build_def Let_def split: option.splits prod.splits)

lemma build_translated:
  assumes "subprocess_popen w False (gpp_command w a gpp_exe kl_file dname) = Some (0, gpp_out, gpp_err)"
    and "subprocess_popen w True (ktrans_command w a ktrans_exe kl_file dname) = Some (ret, pstdout, unused)"
  shows "build w a ktrans_exe gpp_exe kl_file dname =
           \<lparr>status = Exit ret,
            stdout = (if ret \<noteq> 0 \<or> \<not> quiet a \<or> verbose a
                      then str_replace dname (path_dirname w kl_file) pstdout @ [newline] else []),
            stderr = [],
            events = [Popen False (gpp_command w a gpp_exe kl_file dname),
                      Popen True (ktrans_command w a ktrans_exe kl_file dname)],
            workspace = None\<rparr>"
  using assms by (simp add: build_def Let_def)

lemma compile_clean:
  assumes "mkdtemp w ''-buildd'' ''ktransw-'' = Some dname"
    and "fst (rmtree_path (workspace_at_exit w dname)) = None"
  shows "status (compile w a ktrans_exe gpp_exe kl_file) = status (build w a ktrans_exe gpp_exe kl_file dname)"
    and "stdout (compile w a ktrans_exe gpp_exe kl_file) = stdout (build w a ktrans_exe gpp_exe kl_file dname)"
    and "stderr (compile w a ktrans_exe gpp_exe kl_file) = stderr (build w a ktrans_exe gpp_exe kl_file dname)"
    and "events (compile w a ktrans_exe gpp_exe kl_file) =
           Mkdtemp ''-buildd'' ''ktransw-'' # events (build w a ktrans_exe gpp_exe kl_file dname)
           @ (if dname = [] then [] else [Rmtree dname])"
    and "dname \<noteq> [] \<Longrightarrow> workspace (compile w a ktrans_exe gpp_exe kl_file) =
           snd (rmtree_path (workspace_at_exit w dname))"
proof -
  obtain e d where r: "rmtree_path (workspace_at_exit w dname) = (e, d)"
    by (cases "rmtree_path (workspace_at_exit w dname)")
  with assms(2) have e: "e = None" by simp
  show "status (compile w a ktrans_exe gpp_exe kl_file) = status (build w a ktrans_exe gpp_exe kl_file dname)"
    using assms(1) r e by (simp add: compile_def cleanup_def Let_def)
  show "stdout (compile w a ktrans_exe gpp_exe kl_file) = stdout (build w a ktrans_exe gpp_exe kl_file dname)"
    using assms(1) r e by (simp add: compile_def cleanup_def Let_def)
  show "stderr (compile w a ktrans_exe gpp_exe kl_file) = stderr (build w a ktrans_exe gpp_exe kl_file dname)"
    using assms(1) r e by (simp add: compile_def cleanup_def Let_def)
  show "events (compile w a ktrans_exe gpp_exe kl_file) =
           Mkdtemp ''-buildd'' ''ktransw-'' # events (build w a ktrans_exe gpp_exe kl_file dname)
           @ (if dname = [] then [] else [Rmtree dname])"
    using assms(1) r e by (simp add: compile_def cleanup_def Let_def)
  show "workspace (compile w a ktrans_exe gpp_exe kl_file) =
           snd (rmtree_path (workspace_at_exit w dname))" if "dname \<noteq> []"
    using assms(1) r e that by (simp add: compile_def cleanup_def Let_def)
qed

text \<open>
  A run whose temporary directory can be removed. In compile mode, once the
  preprocessor has returned 0 and the translator has returned, the exit code of the program is the translator's return code, zero or
  not, and what the program prints is the translator's captured output after
  \<^verbatim>\<open>replace\<close>, followed by a line feed (nothing is printed when the translator
  succeeded and \<^verbatim>\<open>-q\<close> without \<^verbatim>\<open>-v\<close> was given). \<^verbatim>\<open>replace\<close> replaces every
  occurrence: an output that is a list of segments separated by the temporary
  directory's path becomes the same segments separated by the source file's
  directory (the segments being such that the path occurs nowhere else). All this
  is about a run whose removal of the temporary directory raises nothing.
\<close>

theorem translator_output_and_exit_code:
  assumes "absolutize w (ktrans_args p) = Inr kargs"
    and "filter (\<lambda>arg. endswith arg KL_SUFFIX) kargs = kl_file # others"
    and "\<not> dep_output p" and "\<not> ignore_syshdrs p" and "\<not> dry_run p"
    and "mkdtemp w ''-buildd'' ''ktransw-'' = Some dname"
    and "subprocess_popen w False
           (gpp_command w (p\<lparr>ktrans_args := kargs\<rparr>) (exe_path w (gpp_path p) GPP_BIN_NAME)
              kl_file dname) = Some (0, gpp_out, gpp_err)"
    and "subprocess_popen w True
           (ktrans_command w (p\<lparr>ktrans_args := kargs\<rparr>) (exe_path w (ktrans_path p) KTRANS_BIN_NAME)
              kl_file dname) = Some (ret, pstdout, unused)"
    and "fst (rmtree_path (workspace_at_exit w dname)) = None"
  shows "status (main w p) = Exit ret \<and>
         stdout (main w p) =
           (if ret \<noteq> 0 \<or> \<not> quiet p \<or> verbose p
            then str_replace dname (path_dirname w kl_file) pstdout @ [newline] else []) \<and>
         (\<forall>segs. dname \<noteq> [] \<and> pstdout = str_join dname segs \<and>
                 (\<forall>seg\<in>set segs. \<not> sublist dname (seg @ butlast dname)) \<longrightarrow>
            str_replace dname (path_dirname w kl_file) pstdout =
              str_join (path_dirname w kl_file) segs)"
proof -
  let ?a = "p\<lparr>ktrans_args := kargs\<rparr>"
  let ?k = "exe_path w (ktrans_path p) KTRANS_BIN_NAME"
  let ?g = "exe_path w (gpp_path p) GPP_BIN_NAME"
  have main: "main w p = compile w ?a ?k ?g kl_file"
    using assms(1-5) by (rule main_compile_mode)
  have body: "build w ?a ?k ?g kl_file dname =
      \<lparr>status = Exit ret,
       stdout = (if ret \<noteq> 0 \<or> \<not> quiet ?a \<or> verbose ?a
                 then str_replace dname (path_dirname w kl_file) pstdout @ [newline] else []),
       stderr = [],
       events = [Popen False (gpp_command w ?a ?g kl_file dname),
                 Popen True (ktrans_command w ?a ?k kl_file dname)],
       workspace = None\<rparr>"
    using assms(7,8) by (rule build_translated)
  have st: "status (main w p) = Exit ret"
    unfolding main compile_clean(1) [OF assms(6,9)] body by simp
  have out: "stdout (main w p) =
           (if ret \<noteq> 0 \<or> \<not> quiet p \<or> verbose p
            then str_replace dname (path_dirname w kl_file) pstdout @ [newline] else [])"
    unfolding main compile_clean(2) [OF assms(6,9)] body by simp
  have all: "str_replace dname (path_dirname w kl_file) pstdout =
              str_join (path_dirname w kl_file) segs"
    if "dname \<noteq> [] \<and> pstdout = str_join dname segs \<and>
        (\<forall>seg\<in>set segs. \<not> sublist dname (seg @ butlast dname))" for segs
    using that str_replace_join [of dname segs "path_dirname w kl_file"] by simp
  from st out all show ?thesis by blast
qed

theorem translator_output_and_exit_code_witness:
  "status (main sample_world sample_args) = Exit 2 \<and>
   stdout (main sample_world sample_args) = ''/src/main.kl(3) bad /src/'' @ [newline]"
proof -
  let ?kargs = "[''/src/main.kl'', ''/config'', ''/cwd/robot.ini'', ''/cwd/other.kl'']"
  let ?d = "''/tmp/ktransw-x-buildd''"
  let ?out = "''/tmp/ktransw-x-buildd/main.kl(3) bad /tmp/ktransw-x-buildd/''"
  let ?segs = "[[], ''/main.kl(3) bad '', ''/'']"
  have 1: "absolutize sample_world (ktrans_args sample_args) = Inr ?kargs"
    using sample_absolutize by (simp add: sample_args_def)
  have 2: "filter (\<lambda>arg. endswith arg KL_SUFFIX) ?kargs = ''/src/main.kl'' # [''/cwd/other.kl'']"
    using sample_kl_files by simp
  have 3: "\<not> dep_output sample_args" "\<not> ignore_syshdrs sample_args" "\<not> dry_run sample_args"
    by (simp_all add: sample_args_def)
  have 4: "mkdtemp sample_world ''-buildd'' ''ktransw-'' = Some ?d"
    by (simp add: sample_world_def)
  have 5: "subprocess_popen sample_world False c = Some (0, [], [])" for c
    by (simp add: sample_world_def)
  have 6: "subprocess_popen sample_world True c = Some (2, ?out, [])" for c
    by (simp add: sample_world_def)
  have 7: "fst (rmtree_path (workspace_at_exit sample_world ?d)) = None"
    by (simp add: sample_world_def)
  have dir: "path_dirname sample_world ''/src/main.kl'' = ''/src''"
    by (simp add: sample_world_def)
  have join: "?out = str_join ?d ?segs"
    by simp
  have s1: "\<not> sublist ?d ([] @ butlast ?d)"
    by code_simp
  have s2: "\<not> sublist ?d (''/main.kl(3) bad '' @ butlast ?d)"
    by code_simp
  have s3: "\<not> sublist ?d (''/'' @ butlast ?d)"
    by code_simp
  from s1 s2 s3 have segs: "\<forall>seg\<in>set ?segs. \<not> sublist ?d (seg @ butlast ?d)"
    by simp
  note inst = translator_output_and_exit_code [OF 1 2 3 4 5 6 7]
  from inst have st: "status (main sample_world sample_args) = Exit 2"
    by blast
  from inst have "stdout (main sample_world sample_args) =
      str_replace ?d (path_dirname sample_world ''/src/main.kl'') ?out @ [newline]"
    by simp
  moreover from inst join segs
  have "str_replace ?d (path_dirname sample_world ''/src/main.kl'') ?out =
      str_join (path_dirname sample_world ''/src/main.kl'') ?segs"
    by blast
  ultimately have "stdout (main sample_world sample_args) = ''/src/main.kl(3) bad /src/'' @ [newline]"
    by (simp add: dir)
  with st show ?thesis by blast
qed

subsection \<open>The first source file\<close>

lemma compile_popen:
  assumes "mkdtemp w ''-buildd'' ''ktransw-'' = Some dname"
    and "Popen mrg cmd \<in> set (events (compile w a ktrans_exe gpp_exe kl_file))"
  shows "Popen mrg cmd \<in> set (events (build w a ktrans_exe gpp_exe kl_file dname))"
proof -
  obtain e1 td1 d1 ev1 where c1: "cleanup False \<lparr>td_name = dname, td_closed = False\<rparr>
      (workspace_at_exit w dname) = (e1, td1, d1, ev1)"
    by (metis prod_cases4)
  obtain e2 td2 d2 ev2 where c2: "cleanup True td1 d1 = (e2, td2, d2, ev2)"
    by (metis prod_cases4)
  have r1: "Popen mrg cmd \<notin> set ev1"
    using c1 by (auto simp: cleanup_def split: if_splits prod.splits option.splits)
  have r2: "Popen mrg cmd \<notin> set ev2"
    using c2 by (auto simp: cleanup_def split: if_splits prod.splits option.splits)
  from assms c1 c2 r1 r2 show ?thesis
    by (auto simp: compile_def Let_def split: if_splits)
qed

lemma dependency_output_reads:
  assumes "Read f \<in> set (events (dependency_output w a kl_file))"
  shows "f = kl_file"
proof (cases "file_read w kl_file")
  case None
  with assms show ?thesis by (simp add: dependency_output_def)
next
  case (Some source)
  obtain ev r where c: "collect_deps w a [] (scan_for_inc_stmts source) = (ev, r)"
    by (cases "collect_deps w a [] (scan_for_inc_stmts source)")
  have "Read f \<notin> set ev"
    using collect_deps_events [of "Read f" w a "[]" "scan_for_inc_stmts source"] c by auto
  with assms Some c show ?thesis
    by (cases r) (auto simp: dependency_output_def Let_def split: if_splits)
qed

lemma substitute_first:
  assumes "\<forall>arg\<in>set pre. \<not> endswith arg KL_SUFFIX" and "endswith kl_file KL_SUFFIX"
  shows "map (\<lambda>arg. if arg = kl_file then fname else arg) (pre @ kl_file # post) =
           pre @ fname # map (\<lambda>arg. if arg = kl_file then fname else arg) post"
proof -
  from assms have "\<forall>arg\<in>set pre. arg \<noteq> kl_file" by blast
  then have "map (\<lambda>arg. if arg = kl_file then fname else arg) pre = pre"
    by (induction pre) simp_all
  then show ?thesis by simp
qed

text \<open>
  Claim C10, amended. Let \<open>kl_file\<close> be the first argument that ends in \<^verbatim>\<open>.kl\<close>. In
  dependency-only mode the run is that of \<open>dependency_output\<close> on \<open>kl_file\<close>: it is the
  only file read, and it names the default target. In compile mode every process the
  program starts is either the preprocessor, with \<open>kl_file\<close> as input and the
  intermediate file of \<open>kl_file\<close> as output, or the translator, whose arguments are the
  program's arguments with the intermediate file in the place of \<open>kl_file\<close>: the
  arguments before it as they are, and of those after it the ones equal to \<open>kl_file\<close>
  replaced and all others, source files or not, as they are.
\<close>

theorem first_source_file_used:
  assumes "absolutize w (ktrans_args p) = Inr kargs"
    and "kargs = pre @ kl_file # post"
    and "\<forall>arg\<in>set pre. \<not> endswith arg KL_SUFFIX"
    and "endswith kl_file KL_SUFFIX"
  shows "(dep_output p \<or> ignore_syshdrs p \<longrightarrow>
            main w p = dependency_output w (p\<lparr>ktrans_args := kargs\<rparr>) kl_file \<and>
            (\<forall>f. Read f \<in> set (events (main w p)) \<longrightarrow> f = kl_file) \<and>
            (\<not> truthy (dep_target p) \<longrightarrow>
               dep_target_name w (p\<lparr>ktrans_args := kargs\<rparr>) kl_file =
                 path_basename w (fst (path_splitext w kl_file)) @ ''.pc'')) \<and>
         (\<not> dep_output p \<and> \<not> ignore_syshdrs p \<and> \<not> dry_run p \<longrightarrow>
            (\<forall>dname mrg cmd.
               mkdtemp w ''-buildd'' ''ktransw-'' = Some dname \<and>
               Popen mrg cmd \<in> set (events (main w p)) \<longrightarrow>
                 (\<not> mrg \<and> cmd = str_join '' ''
                    (setup_gpp_cline (exe_path w (gpp_path p) GPP_BIN_NAME) kl_file
                       (intermediate w kl_file dname) (include_dirs p))) \<or>
                 (mrg \<and> cmd = str_join '' ''
                    (exe_path w (ktrans_path p) KTRANS_BIN_NAME # pre @
                     intermediate w kl_file dname #
                     map (\<lambda>arg. if arg = kl_file then intermediate w kl_file dname else arg) post))))"
proof -
  let ?a = "p\<lparr>ktrans_args := kargs\<rparr>"
  let ?k = "exe_path w (ktrans_path p) KTRANS_BIN_NAME"
  let ?g = "exe_path w (gpp_path p) GPP_BIN_NAME"
  have kl: "filter (\<lambda>arg. endswith arg KL_SUFFIX) kargs =
      kl_file # filter (\<lambda>arg. endswith arg KL_SUFFIX) post"
    using assms(2-4) by (rule first_kl_file)
  have dep: "main w p = dependency_output w ?a kl_file \<and>
            (\<forall>f. Read f \<in> set (events (main w p)) \<longrightarrow> f = kl_file) \<and>
            (\<not> truthy (dep_target p) \<longrightarrow>
               dep_target_name w ?a kl_file =
                 path_basename w (fst (path_splitext w kl_file)) @ ''.pc'')"
    if "dep_output p \<or> ignore_syshdrs p"
  proof -
    have m: "main w p = dependency_output w ?a kl_file"
      using assms(1) kl that by (rule main_dependency_mode)
    have "f = kl_file" if "Read f \<in> set (events (main w p))" for f
      using that dependency_output_reads [of f w ?a kl_file] by (simp add: m)
    moreover have "dep_target_name w ?a kl_file =
        path_basename w (fst (path_splitext w kl_file)) @ ''.pc''" if "\<not> truthy (dep_target p)"
      using that by (simp add: dep_target_name_def PCODE_SUFFIX_def)
    ultimately show ?thesis using m by blast
  qed
  have comp: "(\<not> mrg \<and> cmd = str_join '' ''
                    (setup_gpp_cline ?g kl_file (intermediate w kl_file dname) (include_dirs p))) \<or>
                 (mrg \<and> cmd = str_join '' ''
                    (?k # pre @ intermediate w kl_file dname #
                     map (\<lambda>arg. if arg = kl_file then intermediate w kl_file dname else arg) post))"
    if mode: "\<not> dep_output p \<and> \<not> ignore_syshdrs p \<and> \<not> dry_run p"
      and ev: "mkdtemp w ''-buildd'' ''ktransw-'' = Some dname \<and>
               Popen mrg cmd \<in> set (events (main w p))"
    for dname mrg cmd
  proof -
    have m: "main w p = compile w ?a ?k ?g kl_file"
      using assms(1) kl mode by (intro main_compile_mode) simp_all
    with ev have "Popen mrg cmd \<in> set (events (build w ?a ?k ?g kl_file dname))"
      by (simp add: compile_popen)
    with build_events [of w ?a ?k ?g kl_file dname]
    have "(\<not> mrg \<and> cmd = gpp_command w ?a ?g kl_file dname) \<or>
          (mrg \<and> cmd = ktrans_command w ?a ?k kl_file dname)"
      by auto
    moreover have "gpp_command w ?a ?g kl_file dname = str_join '' ''
        (setup_gpp_cline ?g kl_file (intermediate w kl_file dname) (include_dirs p))"
      by (simp add: gpp_command_def)
    moreover have "ktrans_command w ?a ?k kl_file dname = str_join '' ''
        (?k # pre @ intermediate w kl_file dname #
         map (\<lambda>arg. if arg = kl_file then intermediate w kl_file dname else arg) post)"
      using substitute_first [OF assms(3,4)] by (simp add: ktrans_command_def assms(2))
    ultimately show ?thesis by simp
  qed
  from dep comp show ?thesis by blast
qed

text \<open>
  Claim C10 as stated fails in its last part: the loop that substitutes the
  intermediate file compares every argument with the first source file, so a second
  argument naming the same file is a recognized source argument other than the first
  and is replaced too.
\<close>

theorem repeated_source_file_substituted:
  "ktrans_args (sample_args\<lparr>ktrans_args := [''/src/main.kl'', ''/src/main.kl'']\<rparr>) ! 1 = ''/src/main.kl'' \<and>
   endswith ''/src/main.kl'' KL_SUFFIX \<and>
   events (main sample_world (sample_args\<lparr>ktrans_args := [''/src/main.kl'', ''/src/main.kl'']\<rparr>)) ! 2 =
     Popen True ''ktrans.exe /tmp/ktransw-x-buildd/main.kl /tmp/ktransw-x-buildd/main.kl''"
proof -
  let ?a = "sample_args\<lparr>ktrans_args := [''/src/main.kl'', ''/src/main.kl'']\<rparr>"
  let ?kargs = "[''/src/main.kl'', ''/src/main.kl'']"
  let ?d = "''/tmp/ktransw-x-buildd''"
  have 1: "absolutize sample_world (ktrans_args ?a) = Inr ?kargs"
    by (simp add: sample_world_def)
  have 2: "filter (\<lambda>arg. endswith arg KL_SUFFIX) ?kargs = ''/src/main.kl'' # [''/src/main.kl'']"
    by (simp add: endswith_def KL_SUFFIX_def suffix_def)
  have 3: "\<not> dep_output ?a" "\<not> ignore_syshdrs ?a" "\<not> dry_run ?a"
    by (simp_all add: sample_args_def)
  have 4: "mkdtemp sample_world ''-buildd'' ''ktransw-'' = Some ?d"
    by (simp add: sample_world_def)
  have 5: "subprocess_popen sample_world False c = Some (0, [], [])" for c
    by (simp add: sample_world_def)
  have 6: "subprocess_popen sample_world True c =
      Some (2, ''/tmp/ktransw-x-buildd/main.kl(3) bad /tmp/ktransw-x-buildd/'', [])" for c
    by (simp add: sample_world_def)
  have 7: "fst (rmtree_path (workspace_at_exit sample_world ?d)) = None"
    by (simp add: sample_world_def)
  have exe: "exe_path sample_world (ktrans_path ?a) KTRANS_BIN_NAME = ''ktrans.exe''"
    by (simp add: sample_args_def KTRANS_BIN_NAME_def)
  have cmd: "ktrans_command sample_world (?a\<lparr>ktrans_args := ?kargs\<rparr>) ''ktrans.exe'' ''/src/main.kl'' ?d =
      ''ktrans.exe /tmp/ktransw-x-buildd/main.kl /tmp/ktransw-x-buildd/main.kl''"
    by (simp add: ktrans_command_def intermediate_def sample_world_def)
  have "events (main sample_world ?a) =
      Mkdtemp ''-buildd'' ''ktransw-'' #
      events (build sample_world (?a\<lparr>ktrans_args := ?kargs\<rparr>)
        (exe_path sample_world (ktrans_path ?a) KTRANS_BIN_NAME)
        (exe_path sample_world (gpp_path ?a) GPP_BIN_NAME) ''/src/main.kl'' ?d) @ [Rmtree ?d]"
    unfolding main_compile_mode [OF 1 2 3] compile_clean(4) [OF 4 7] by simp
  also have "events (build sample_world (?a\<lparr>ktrans_args := ?kargs\<rparr>)
        (exe_path sample_world (ktrans_path ?a) KTRANS_BIN_NAME)
        (exe_path sample_world (gpp_path ?a) GPP_BIN_NAME) ''/src/main.kl'' ?d) =
      [Popen False (gpp_command sample_world (?a\<lparr>ktrans_args := ?kargs\<rparr>)
         (exe_path sample_world (gpp_path ?a) GPP_BIN_NAME) ''/src/main.kl'' ?d),
       Popen True (ktrans_command sample_world (?a\<lparr>ktrans_args := ?kargs\<rparr>)
         (exe_path sample_world (ktrans_path ?a) KTRANS_BIN_NAME) ''/src/main.kl'' ?d)]"
    unfolding build_translated [OF 5 6] by simp
  finally have "events (main sample_world ?a) ! 2 =
      Popen True (ktrans_command sample_world (?a\<lparr>ktrans_args := ?kargs\<rparr>)
         (exe_path sample_world (ktrans_path ?a) KTRANS_BIN_NAME) ''/src/main.kl'' ?d)"
    by simp
  with exe cmd have "events (main sample_world ?a) ! 2 =
      Popen True ''ktrans.exe /tmp/ktransw-x-buildd/main.kl /tmp/ktransw-x-buildd/main.kl''"
    by simp
  moreover have "endswith ''/src/main.kl'' KL_SUFFIX"
    by (simp add: endswith_def KL_SUFFIX_def suffix_def)
  ultimately show ?thesis by simp
qed

theorem first_source_file_used_witness:
  "Read ''/cwd/other.kl'' \<notin> set (events (main sample_world (sample_args\<lparr>dep_output := True\<rparr>))) \<and>
   Popen True ''ktrans.exe /src/main.kl /config /cwd/robot.ini /cwd/other.kl''
     \<notin> set (events (main sample_world sample_args)) \<and>
   Popen False (str_join '' '' (setup_gpp_cline ''gpp.exe'' ''/cwd/other.kl''
       ''/tmp/ktransw-x-buildd/other.kl'' [''/inc1'', ''/inc2'', ''/inc3'']))
     \<notin> set (events (main sample_world sample_args))"
proof -
  let ?kargs = "[''/src/main.kl'', ''/config'', ''/cwd/robot.ini'', ''/cwd/other.kl'']"
  let ?d = "''/tmp/ktransw-x-buildd''"
  have 1: "absolutize sample_world (ktrans_args sample_args) = Inr ?kargs"
    using sample_absolutize by (simp add: sample_args_def)
  have absd: "absolutize sample_world (ktrans_args (sample_args\<lparr>dep_output := True\<rparr>)) = Inr ?kargs"
    using sample_absolutize by (simp add: sample_args_def)
  have 2: "?kargs = [] @ ''/src/main.kl'' # [''/config'', ''/cwd/robot.ini'', ''/cwd/other.kl'']"
    by simp
  have 3: "\<forall>arg\<in>set []. \<not> endswith arg KL_SUFFIX"
    by simp
  have 4: "endswith ''/src/main.kl'' KL_SUFFIX"
    by (simp add: endswith_def KL_SUFFIX_def suffix_def)
  have tmp: "mkdtemp sample_world ''-buildd'' ''ktransw-'' = Some ?d"
    by (simp add: sample_world_def)
  have mode: "\<not> dep_output sample_args \<and> \<not> ignore_syshdrs sample_args \<and> \<not> dry_run sample_args"
    by (simp add: sample_args_def)
  have gexe: "exe_path sample_world (gpp_path sample_args) GPP_BIN_NAME = ''gpp.exe''"
    and kexe: "exe_path sample_world (ktrans_path sample_args) KTRANS_BIN_NAME = ''ktrans.exe''"
    by (simp_all add: sample_args_def GPP_BIN_NAME_def KTRANS_BIN_NAME_def)
  have flag: "dep_output (sample_args\<lparr>dep_output := True\<rparr>) \<or>
      ignore_syshdrs (sample_args\<lparr>dep_output := True\<rparr>)"
    by simp
  note instd = first_source_file_used [OF absd 2 3 4, THEN conjunct1, rule_format, OF flag]
  have a: "Read ''/cwd/other.kl'' \<notin> set (events (main sample_world (sample_args\<lparr>dep_output := True\<rparr>)))"
  proof
    assume "Read ''/cwd/other.kl'' \<in> set (events (main sample_world (sample_args\<lparr>dep_output := True\<rparr>)))"
    from instd [THEN conjunct2, THEN conjunct1, rule_format, OF this]
    show False by simp
  qed
  note instc = first_source_file_used [OF 1 2 3 4, THEN conjunct2, rule_format, OF mode]
  have b: "Popen True ''ktrans.exe /src/main.kl /config /cwd/robot.ini /cwd/other.kl''
     \<notin> set (events (main sample_world sample_args))"
  proof
    assume "Popen True ''ktrans.exe /src/main.kl /config /cwd/robot.ini /cwd/other.kl''
      \<in> set (events (main sample_world sample_args))"
    from instc [OF conjI [OF tmp this]]
    have "''ktrans.exe /src/main.kl /config /cwd/robot.ini /cwd/other.kl'' = str_join '' ''
        (exe_path sample_world (ktrans_path sample_args) KTRANS_BIN_NAME # [] @
         intermediate sample_world ''/src/main.kl'' ?d #
         map (\<lambda>arg. if arg = ''/src/main.kl'' then intermediate sample_world ''/src/main.kl'' ?d else arg)
           [''/config'', ''/cwd/robot.ini'', ''/cwd/other.kl''])"
      by simp
    then show False
      by (simp add: kexe intermediate_def sample_world_def)
  qed
  have c: "Popen False (str_join '' '' (setup_gpp_cline ''gpp.exe'' ''/cwd/other.kl''
       ''/tmp/ktransw-x-buildd/other.kl'' [''/inc1'', ''/inc2'', ''/inc3'']))
     \<notin> set (events (main sample_world sample_args))"
  proof
    assume "Popen False (str_join '' '' (setup_gpp_cline ''gpp.exe'' ''/cwd/other.kl''
       ''/tmp/ktransw-x-buildd/other.kl'' [''/inc1'', ''/inc2'', ''/inc3'']))
      \<in> set (events (main sample_world sample_args))"
    from instc [OF conjI [OF tmp this]]
    have "str_join '' '' (setup_gpp_cline ''gpp.exe'' ''/cwd/other.kl''
       ''/tmp/ktransw-x-buildd/other.kl'' [''/inc1'', ''/inc2'', ''/inc3'']) = str_join '' ''
        (setup_gpp_cline (exe_path sample_world (gpp_path sample_args) GPP_BIN_NAME) ''/src/main.kl''
           (intermediate sample_world ''/src/main.kl'' ?d) (include_dirs sample_args))"
      by simp
    then show False
      by (simp add: gexe intermediate_def sample_world_def sample_args_def setup_gpp_cline_def quoted_def)
  qed
  from a b c show ?thesis by blast
qed

subsection \<open>A workspace with files that cannot be removed\<close>

lemma rmtree_settled_aux:
  "listable t \<Longrightarrow> t = Dir n0 ls0 rm0 cs0 \<Longrightarrow> list_all settled (opt_list (snd (rmtree t)))"
  and rmtree_names_settled: "list_all listable ts \<Longrightarrow> list_all settled (snd (rmtree_names ts))"
proof (induction t and ts arbitrary: n0 ls0 rm0 cs0 rule: rmtree_rmtree_names.induct)
  case (1 n ok)
  then show ?case by simp
next
  case (2 n ok)
  then show ?case by simp
next
  case (3 n ls rm cs)
  from "3.prems" have l: "list_all listable cs" by simp
  with rmtree_names_listable [of cs] have "fst (rmtree_names cs) = None" by simp
  with 3 l show ?case
    by (cases "rmtree_names cs") auto
next
  case 4
  then show ?case by simp
next
  case (5 n ok cs)
  then show ?case
    by (cases "rmtree_names cs") auto
next
  case (6 n ok cs)
  then show ?case
    by (cases "rmtree_names cs") auto
next
  case (7 n ls rm ds cs)
  from "7.prems" have l: "listable (Dir n ls rm ds)" "list_all listable cs" by simp_all
  from rmtree_listable_aux [OF l(1) refl] have "fst (rmtree (Dir n ls rm ds)) = None" by simp
  with 7 l show ?case
    by (cases "rmtree (Dir n ls rm ds)"; cases "rmtree_names cs") (auto simp del: rmtree.simps)
qed

lemma rmtree_settled:
  assumes "listable (Dir n ls rm cs)"
  shows "list_all settled (opt_list (snd (rmtree (Dir n ls rm cs))))"
  using rmtree_settled_aux [OF assms refl] .

text \<open>
  When every directory of the workspace can be listed, the workspace is removed
  exactly once, after the body and however the body ended, and the body's exit status
  stays the program's: \<^verbatim>\<open>_rmtree\<close> raises nothing, the files and links that are left
  are exactly those whose removal failed, and no directory is left that was empty and
  removable. \<^verbatim>\<open>__del__\<close> finds the directory closed and does nothing.
\<close>

lemma workspace_removed_once:
  assumes "mkdtemp w ''-buildd'' ''ktransw-'' = Some dname" and "dname \<noteq> []"
    and "workspace_at_exit w dname = Some (Dir n ls rm cs)"
    and "listable (Dir n ls rm cs)"
  shows "status (compile w a ktrans_exe gpp_exe kl_file) =
           status (build w a ktrans_exe gpp_exe kl_file dname) \<and>
         events (compile w a ktrans_exe gpp_exe kl_file) =
           Mkdtemp ''-buildd'' ''ktransw-'' # events (build w a ktrans_exe gpp_exe kl_file dname)
           @ [Rmtree dname] \<and>
         (\<forall>e\<in>set (events (build w a ktrans_exe gpp_exe kl_file dname)). e \<noteq> Rmtree dname) \<and>
         workspace (compile w a ktrans_exe gpp_exe kl_file) = snd (rmtree (Dir n ls rm cs)) \<and>
         fst (rmtree (Dir n ls rm cs)) = None \<and>
         concat (map leaves (opt_list (snd (rmtree (Dir n ls rm cs))))) =
           filter (\<lambda>(n, ok). \<not> ok) (leaves (Dir n ls rm cs)) \<and>
         list_all settled (opt_list (snd (rmtree (Dir n ls rm cs))))"
proof -
  have quiet: "fst (rmtree_path (workspace_at_exit w dname)) = None"
    using assms(3) rmtree_listable(1) [OF assms(4)] by simp
  have 1: "status (compile w a ktrans_exe gpp_exe kl_file) =
           status (build w a ktrans_exe gpp_exe kl_file dname)"
    using assms(1) quiet by (rule compile_clean(1))
  have 2: "events (compile w a ktrans_exe gpp_exe kl_file) =
           Mkdtemp ''-buildd'' ''ktransw-'' # events (build w a ktrans_exe gpp_exe kl_file dname)
           @ [Rmtree dname]"
    using compile_clean(4) [OF assms(1) quiet] assms(2) by simp
  have 3: "\<forall>e\<in>set (events (build w a ktrans_exe gpp_exe kl_file dname)). e \<noteq> Rmtree dname"
    using build_events [of w a ktrans_exe gpp_exe kl_file dname] by auto
  have 4: "workspace (compile w a ktrans_exe gpp_exe kl_file) = snd (rmtree (Dir n ls rm cs))"
    using compile_clean(5) [OF assms(1) quiet assms(2)] assms(3) by simp
  from 1 2 3 4 rmtree_listable [OF assms(4)] rmtree_settled [OF assms(4)]
  show ?thesis by (intro conjI)
qed

subsection \<open>A workspace that cannot be listed\<close>

lemma stuck_rmtree:
  "rmtree (stuck_workspace d) = (Some OSError, Some (stuck_workspace d))"
  by (simp add: stuck_workspace_def)

text \<open>
  Claim C7, at a workspace where it fails. The translator returned 2, so the body
  of the \<^verbatim>\<open>with\<close> block ends with \<^verbatim>\<open>sys.exit(2)\<close>. The removal of \<^verbatim>\<open>main.kl\<close> fails and
  is swallowed; then \<^verbatim>\<open>os.listdir\<close> fails on \<^verbatim>\<open>sub\<close>, and its \<^verbatim>\<open>OSError\<close> leaves
  \<^verbatim>\<open>_rmtree\<close>, \<^verbatim>\<open>cleanup\<close> and \<^verbatim>\<open>__exit__\<close>: the program ends with that exception
  instead of exit code 2, \<^verbatim>\<open>main.ls\<close> and the directory itself are never tried, and,
  \<^verbatim>\<open>_closed\<close> being still false, \<^verbatim>\<open>__del__\<close> runs \<^verbatim>\<open>_rmtree\<close> a second time.
\<close>

theorem listing_failure_is_the_outcome:
  "subprocess_popen stuck_world True
      ''ktrans.exe /tmp/ktransw-x-buildd/main.kl /config /cwd/robot.ini /cwd/other.kl'' =
      Some (2, ''/tmp/ktransw-x-buildd/main.kl(3) bad /tmp/ktransw-x-buildd/'', []) \<and>
   status (main stuck_world sample_args) = Uncaught OSError \<and>
   workspace (main stuck_world sample_args) =
     Some (Dir ''/tmp/ktransw-x-buildd'' True True
             [File ''main.kl'' False, Dir ''sub'' False True [], File ''main.ls'' True]) \<and>
   drop 3 (events (main stuck_world sample_args)) =
     [Rmtree ''/tmp/ktransw-x-buildd'', Rmtree ''/tmp/ktransw-x-buildd'']"
proof -
  let ?kargs = "[''/src/main.kl'', ''/config'', ''/cwd/robot.ini'', ''/cwd/other.kl'']"
  let ?a = "sample_args\<lparr>ktrans_args := ?kargs\<rparr>"
  let ?d = "''/tmp/ktransw-x-buildd''"
  have 1: "absolutize stuck_world (ktrans_args sample_args) = Inr ?kargs"
    using sample_absolutize by (simp add: sample_args_def stuck_world_def sample_world_def)
  have 2: "filter (\<lambda>arg. endswith arg KL_SUFFIX) ?kargs = ''/src/main.kl'' # [''/cwd/other.kl'']"
    using sample_kl_files by simp
  have 3: "\<not> dep_output sample_args" "\<not> ignore_syshdrs sample_args" "\<not> dry_run sample_args"
    by (simp_all add: sample_args_def)
  have exe: "exe_path stuck_world (ktrans_path sample_args) KTRANS_BIN_NAME = ''ktrans.exe''"
    "exe_path stuck_world (gpp_path sample_args) GPP_BIN_NAME = ''gpp.exe''"
    by (simp_all add: sample_args_def KTRANS_BIN_NAME_def GPP_BIN_NAME_def)
  have main: "main stuck_world sample_args =
      compile stuck_world ?a ''ktrans.exe'' ''gpp.exe'' ''/src/main.kl''"
    using main_compile_mode [OF 1 2 3] exe by simp
  have tmp: "mkdtemp stuck_world ''-buildd'' ''ktransw-'' = Some ?d"
    by (simp add: stuck_world_def sample_world_def)
  have 5: "subprocess_popen stuck_world False c = Some (0, [], [])" for c
    by (simp add: stuck_world_def sample_world_def)
  have 6: "subprocess_popen stuck_world True c =
      Some (2, ''/tmp/ktransw-x-buildd/main.kl(3) bad /tmp/ktransw-x-buildd/'', [])" for c
    by (simp add: stuck_world_def sample_world_def)
  have body: "status (build stuck_world ?a ''ktrans.exe'' ''gpp.exe'' ''/src/main.kl'' ?d) = Exit 2"
    "events (build stuck_world ?a ''ktrans.exe'' ''gpp.exe'' ''/src/main.kl'' ?d) =
       [Popen False (gpp_command stuck_world ?a ''gpp.exe'' ''/src/main.kl'' ?d),
        Popen True (ktrans_command stuck_world ?a ''ktrans.exe'' ''/src/main.kl'' ?d)]"
    unfolding build_translated [OF 5 6] by simp_all
  have ws: "workspace_at_exit stuck_world ?d = Some (stuck_workspace ?d)"
    by (simp add: stuck_world_def)
  have del: "runs_del stuck_world"
    by (simp add: stuck_world_def sample_world_def)
  have first: "cleanup False \<lparr>td_name = ?d, td_closed = False\<rparr> (Some (stuck_workspace ?d)) =
      (Some OSError, \<lparr>td_name = ?d, td_closed = False\<rparr>, Some (stuck_workspace ?d), [Rmtree ?d])"
    by (simp add: cleanup_def stuck_rmtree)
  have second: "cleanup True \<lparr>td_name = ?d, td_closed = False\<rparr> (Some (stuck_workspace ?d)) =
      (Some OSError, \<lparr>td_name = ?d, td_closed = False\<rparr>, Some (stuck_workspace ?d), [Rmtree ?d])"
    by (simp add: cleanup_def stuck_rmtree)
  have comp: "compile stuck_world ?a ''ktrans.exe'' ''gpp.exe'' ''/src/main.kl'' =
      \<lparr>status = Uncaught OSError,
       stdout = stdout (build stuck_world ?a ''ktrans.exe'' ''gpp.exe'' ''/src/main.kl'' ?d),
       stderr = stderr (build stuck_world ?a ''ktrans.exe'' ''gpp.exe'' ''/src/main.kl'' ?d),
       events = Mkdtemp ''-buildd'' ''ktransw-'' #
         events (build stuck_world ?a ''ktrans.exe'' ''gpp.exe'' ''/src/main.kl'' ?d) @
         [Rmtree ?d] @ [Rmtree ?d],
       workspace = Some (stuck_workspace ?d)\<rparr>"
    by (simp only: compile_def tmp ws del first second Let_def option.case prod.case if_True)
  have a: "subprocess_popen stuck_world True
      ''ktrans.exe /tmp/ktransw-x-buildd/main.kl /config /cwd/robot.ini /cwd/other.kl'' =
      Some (2, ''/tmp/ktransw-x-buildd/main.kl(3) bad /tmp/ktransw-x-buildd/'', [])"
    by (rule 6)
  have b: "status (main stuck_world sample_args) = Uncaught OSError"
    by (simp add: main comp)
  have c: "workspace (main stuck_world sample_args) = Some (stuck_workspace ?d)"
    by (simp add: main comp)
  have d: "drop 3 (events (main stuck_world sample_args)) = [Rmtree ?d, Rmtree ?d]"
    by (simp add: main comp body)
  from a b c d show ?thesis
    by (simp add: stuck_workspace_def)
qed

text \<open>
  Claim C8, at the same workspace. The translator returned 2 and its output names the
  temporary directory twice. The output is printed with both occurrences replaced by
  the directory of the source file, but the exit code of the program is not the
  translator's: \<^verbatim>\<open>sys.exit(2)\<close> is raised inside the \<^verbatim>\<open>with\<close> block, \<^verbatim>\<open>__exit__\<close> runs
  the removal, and the \<^verbatim>\<open>OSError\<close> of \<^verbatim>\<open>os.listdir\<close> replaces it.
\<close>

theorem translator_exit_code_lost:
  "subprocess_popen stuck_world False
      (gpp_command stuck_world
         (sample_args\<lparr>ktrans_args := [''/src/main.kl'', ''/config'', ''/cwd/robot.ini'', ''/cwd/other.kl'']\<rparr>)
         ''gpp.exe'' ''/src/main.kl'' ''/tmp/ktransw-x-buildd'') = Some (0, [], []) \<and>
   subprocess_popen stuck_world True
      ''ktrans.exe /tmp/ktransw-x-buildd/main.kl /config /cwd/robot.ini /cwd/other.kl'' =
      Some (2, ''/tmp/ktransw-x-buildd/main.kl(3) bad /tmp/ktransw-x-buildd/'', []) \<and>
   path_dirname stuck_world ''/src/main.kl'' = ''/src'' \<and>
   stdout (main stuck_world sample_args) = ''/src/main.kl(3) bad /src/'' @ [CHR 0x0A] \<and>
   status (main stuck_world sample_args) \<noteq> Exit 2 \<and>
   status (main stuck_world sample_args) = Uncaught OSError"
proof -
  let ?kargs = "[''/src/main.kl'', ''/config'', ''/cwd/robot.ini'', ''/cwd/other.kl'']"
  let ?a = "sample_args\<lparr>ktrans_args := ?kargs\<rparr>"
  let ?d = "''/tmp/ktransw-x-buildd''"
  let ?out = "''/tmp/ktransw-x-buildd/main.kl(3) bad /tmp/ktransw-x-buildd/''"
  have 1: "absolutize stuck_world (ktrans_args sample_args) = Inr ?kargs"
    using sample_absolutize by (simp add: sample_args_def stuck_world_def sample_world_def)
  have 2: "filter (\<lambda>arg. endswith arg KL_SUFFIX) ?kargs = ''/src/main.kl'' # [''/cwd/other.kl'']"
    using sample_kl_files by simp
  have 3: "\<not> dep_output sample_args" "\<not> ignore_syshdrs sample_args" "\<not> dry_run sample_args"
    by (simp_all add: sample_args_def)
  have exe: "exe_path stuck_world (ktrans_path sample_args) KTRANS_BIN_NAME = ''ktrans.exe''"
    "exe_path stuck_world (gpp_path sample_args) GPP_BIN_NAME = ''gpp.exe''"
    by (simp_all add: sample_args_def KTRANS_BIN_NAME_def GPP_BIN_NAME_def)
  have main: "main stuck_world sample_args =
      compile stuck_world ?a ''ktrans.exe'' ''gpp.exe'' ''/src/main.kl''"
    using main_compile_mode [OF 1 2 3] exe by simp
  have tmp: "mkdtemp stuck_world ''-buildd'' ''ktransw-'' = Some ?d"
    by (simp add: stuck_world_def sample_world_def)
  have 5: "subprocess_popen stuck_world False c = Some (0, [], [])" for c
    by (simp add: stuck_world_def sample_world_def)
  have 6: "subprocess_popen stuck_world True c = Some (2, ?out, [])" for c
    by (simp add: stuck_world_def sample_world_def)
  have dir: "path_dirname stuck_world ''/src/main.kl'' = ''/src''"
    by (simp add: stuck_world_def sample_world_def)
  have rep: "str_replace ?d ''/src'' ?out = ''/src/main.kl(3) bad /src/''"
    by code_simp
  have loud: "\<not> quiet ?a"
    by (simp add: sample_args_def)
  have body: "stdout (build stuck_world ?a ''ktrans.exe'' ''gpp.exe'' ''/src/main.kl'' ?d) =
      ''/src/main.kl(3) bad /src/'' @ [CHR 0x0A]"
    unfolding build_translated [OF 5 6] using loud by (simp add: dir rep newline_def)
  have ws: "workspace_at_exit stuck_world ?d = Some (stuck_workspace ?d)"
    by (simp add: stuck_world_def)
  have del: "runs_del stuck_world"
    by (simp add: stuck_world_def sample_world_def)
  have first: "cleanup False \<lparr>td_name = ?d, td_closed = False\<rparr> (Some (stuck_workspace ?d)) =
      (Some OSError, \<lparr>td_name = ?d, td_closed = False\<rparr>, Some (stuck_workspace ?d), [Rmtree ?d])"
    by (simp add: cleanup_def stuck_rmtree)
  have second: "cleanup True \<lparr>td_name = ?d, td_closed = False\<rparr> (Some (stuck_workspace ?d)) =
      (Some OSError, \<lparr>td_name = ?d, td_closed = False\<rparr>, Some (stuck_workspace ?d), [Rmtree ?d])"
    by (simp add: cleanup_def stuck_rmtree)
  have comp: "compile stuck_world ?a ''ktrans.exe'' ''gpp.exe'' ''/src/main.kl'' =
      \<lparr>status = Uncaught OSError,
       stdout = stdout (build stuck_world ?a ''ktrans.exe'' ''gpp.exe'' ''/src/main.kl'' ?d),
       stderr = stderr (build stuck_world ?a ''ktrans.exe'' ''gpp.exe'' ''/src/main.kl'' ?d),
       events = Mkdtemp ''-buildd'' ''ktransw-'' #
         events (build stuck_world ?a ''ktrans.exe'' ''gpp.exe'' ''/src/main.kl'' ?d) @
         [Rmtree ?d] @ [Rmtree ?d],
       workspace = Some (stuck_workspace ?d)\<rparr>"
    by (simp only: compile_def tmp ws del first second Let_def option.case prod.case if_True)
  have a: "subprocess_popen stuck_world False
      (gpp_command stuck_world ?a ''gpp.exe'' ''/src/main.kl'' ?d) = Some (0, [], [])"
    by (rule 5)
  have b: "subprocess_popen stuck_world True
      ''ktrans.exe /tmp/ktransw-x-buildd/main.kl /config /cwd/robot.ini /cwd/other.kl'' =
      Some (2, ?out, [])"
    by (rule 6)
  have c: "stdout (main stuck_world sample_args) = ''/src/main.kl(3) bad /src/'' @ [CHR 0x0A]"
    by (simp add: main comp body)
  have e: "status (main stuck_world sample_args) = Uncaught OSError"
    by (simp add: main comp)
  then have d: "status (main stuck_world sample_args) \<noteq> Exit 2"
    by simp
  from a b dir c d e show ?thesis
    by (intro conjI)
qed

subsection \<open>What the scanner returns\<close>

lemma match_directive_comment:
  assumes "comment_line l"
  shows "match_directive (l @ rest) = None"
proof -
  have "dropWhile is_space l \<noteq> []"
  proof
    assume "dropWhile is_space l = []"
    with assms have "prefix ''--'' []"
      by (simp add: comment_line_def)
    then show False by simp
  qed
  then have "\<exists>x\<in>set l. \<not> is_space x"
    by (auto simp: dropWhile_eq_Nil_conv)
  then obtain x where "x \<in> set l" "\<not> is_space x" by blast
  then have "dropWhile is_space (l @ rest) = dropWhile is_space l @ rest"
    by (rule dropWhile_append1)
  moreover from assms have "prefix ''--'' (dropWhile is_space l @ rest)"
    unfolding comment_line_def by (rule prefix_prefix)
  ultimately have "prefix ''--'' (dropWhile is_space (l @ rest))"
    by simp
  then show ?thesis
    by (simp add: match_directive_def)
qed

lemma match_directive_shape:
  assumes "match_directive s = Some (tok, rest)"
  shows "\<exists>ws gap post. s = ws @ ''%INCLUDE'' @ gap @ tok @ post \<and>
           (\<forall>c\<in>set ws. is_space c) \<and> gap \<noteq> [] \<and> (\<forall>c\<in>set gap. is_space c) \<and>
           tok \<noteq> [] \<and> (\<forall>c\<in>set tok. \<not> is_space c) \<and>
           (post = [] \<or> is_space (hd post)) \<and>
           rest = dropWhile (\<lambda>c. c \<noteq> newline) post"
proof -
  define s1 where "s1 = dropWhile is_space s"
  define s2 where "s2 = drop 8 s1"
  define s3 where "s3 = dropWhile is_space s2"
  define ws where "ws = takeWhile is_space s"
  define gap where "gap = takeWhile is_space s2"
  define post where "post = dropWhile (\<lambda>c. \<not> is_space c) s3"
  from assms have inc: "prefix ''%INCLUDE'' s1" and ne: "s3 \<noteq> s2" "s3 \<noteq> []"
    and tok: "tok = takeWhile (\<lambda>c. \<not> is_space c) s3"
    and rest: "rest = dropWhile (\<lambda>c. c \<noteq> newline) post"
    by (auto simp: match_directive_def Let_def s1_def s2_def s3_def post_def split: if_splits)
  have a: "s = ws @ s1"
    by (simp add: ws_def s1_def)
  from inc have b: "s1 = ''%INCLUDE'' @ s2"
    by (auto simp: prefix_def s2_def)
  have c: "s2 = gap @ s3"
    by (simp add: gap_def s3_def)
  have d: "s3 = tok @ post"
    by (simp add: tok post_def)
  have ws: "\<forall>c\<in>set ws. is_space c"
    unfolding ws_def by (meson set_takeWhileD)
  have gap: "\<forall>c\<in>set gap. is_space c"
    unfolding gap_def by (meson set_takeWhileD)
  from ne(1) c have gap_ne: "gap \<noteq> []"
    by auto
  from ne(2) have "\<not> is_space (hd s3)"
    unfolding s3_def by (rule hd_dropWhile)
  with ne(2) have tok_ne: "tok \<noteq> []"
    unfolding tok by (cases s3) auto
  have tk: "\<forall>c\<in>set tok. \<not> is_space c"
    unfolding tok using set_takeWhileD [of _ "\<lambda>c. \<not> is_space c" s3] by blast
  have post: "post = [] \<or> is_space (hd post)"
    unfolding post_def using hd_dropWhile [of "\<lambda>c. \<not> is_space c" s3] by auto
  from a b c d have "s = ws @ ''%INCLUDE'' @ gap @ tok @ post"
    by simp
  with ws gap gap_ne tok_ne tk post rest show ?thesis
    by blast
qed

text \<open>White space that ends a line, and the indentation that follows it.\<close>

lemma split_indent:
  assumes "\<forall>c\<in>set ws. is_space c"
  shows "\<exists>front ind. ws = front @ ind \<and> (front = [] \<or> last front = newline) \<and>
           (\<forall>c\<in>set ind. is_space c \<and> c \<noteq> newline)"
  using assms
proof (induction ws rule: rev_induct)
  case Nil
  then show ?case by simp
next
  case (snoc x ws)
  then obtain front ind where w: "ws = front @ ind"
    and a: "front = [] \<or> last front = newline"
    and i: "\<forall>c\<in>set ind. is_space c \<and> c \<noteq> newline"
    by auto
  show ?case
  proof (cases "x = newline")
    case True
    have "ws @ [x] = (ws @ [x]) @ []" by simp
    moreover have "last (ws @ [x]) = newline" using True by simp
    ultimately show ?thesis by (metis empty_iff list.set(1))
  next
    case False
    have "ws @ [x] = front @ (ind @ [x])" using w by simp
    moreover have "\<forall>c\<in>set (ind @ [x]). is_space c \<and> c \<noteq> newline"
      using i False snoc.prems by simp
    ultimately show ?thesis using a by blast
  qed
qed

lemma match_directive_directive_of:
  assumes "match_directive s = Some (tok, rest)"
    and "front = [] \<or> last front = newline"
  shows "directive_of (front @ s) tok" and "\<exists>before. s = before @ rest"
proof -
  from match_directive_shape [OF assms(1)]
  obtain ws gap post where s: "s = ws @ ''%INCLUDE'' @ gap @ tok @ post"
    and ws: "\<forall>c\<in>set ws. is_space c"
    and rest: "gap \<noteq> []" "\<forall>c\<in>set gap. is_space c" "tok \<noteq> []" "\<forall>c\<in>set tok. \<not> is_space c"
      "post = [] \<or> is_space (hd post)"
    and r: "rest = dropWhile (\<lambda>c. c \<noteq> newline) post"
    by blast
  from split_indent [OF ws]
  obtain up ind where w: "ws = up @ ind" and up: "up = [] \<or> last up = newline"
    and ind: "\<forall>c\<in>set ind. is_space c \<and> c \<noteq> newline"
    by blast
  have "front @ s = (front @ up) @ ind @ ''%INCLUDE'' @ gap @ tok @ post"
    by (simp add: s w)
  moreover have "front @ up = [] \<or> last (front @ up) = newline"
    using assms(2) up by (cases "up = []") simp_all
  ultimately show "directive_of (front @ s) tok"
    unfolding directive_of_def using ind rest by blast
  have "post = takeWhile (\<lambda>c. c \<noteq> newline) post @ rest"
    by (simp add: r)
  then have "s = (ws @ ''%INCLUDE'' @ gap @ tok @ takeWhile (\<lambda>c. c \<noteq> newline) post) @ rest"
    using s by simp
  then show "\<exists>before. s = before @ rest" ..
qed

lemma scan_from_directive_of:
  assumes "tok \<in> set (scan_from bol s)"
    and "bol \<longrightarrow> front = [] \<or> last front = newline"
  shows "directive_of (front @ s) tok"
  using assms
proof (induction bol s arbitrary: front rule: scan_from.induct)
  case (1 bol)
  then show ?case by simp
next
  case (2 bol c cs)
  show ?case
  proof (cases "if bol then match_directive (c # cs) else None")
    case None
    with "2.prems"(1) have t: "tok \<in> set (scan_from (c = newline) cs)"
      by simp
    have "c = newline \<longrightarrow> front @ [c] = [] \<or> last (front @ [c]) = newline"
      by simp
    from "2.IH"(1) [OF None t this] show ?thesis
      by simp
  next
    case (Some m)
    obtain t rest where m: "m = (t, rest)" by (cases m)
    from Some m have bol: bol and md: "match_directive (c # cs) = Some (t, rest)"
      by (simp_all split: if_splits)
    from "2.prems"(2) bol have ab: "front = [] \<or> last front = newline"
      by simp
    from "2.prems"(1) Some m have "tok = t \<or> tok \<in> set (scan_from False rest)"
      by auto
    then show ?thesis
    proof
      assume "tok = t"
      with match_directive_directive_of(1) [OF md ab] show ?thesis by simp
    next
      assume t: "tok \<in> set (scan_from False rest)"
      from match_directive_directive_of(2) [OF md ab]
      obtain before where b: "c # cs = before @ rest" by blast
      have "False \<longrightarrow> front @ before = [] \<or> last (front @ before) = newline"
        by simp
      from "2.IH"(2) [OF Some m [symmetric] t this] b show ?thesis
        by simp
    qed
  qed
qed

lemma scan_from_rest_of_line:
  assumes "newline \<notin> set l"
  shows "scan_from False (l @ newline # rest) = scan_from True rest"
    and "scan_from False l = []"
  using assms by (induction l) (auto simp del: scan_from.simps(2) simp add: scan_from.simps(2) [where bol = False])

lemma scan_from_comment_line:
  assumes "comment_line l" and "newline \<notin> set l"
  shows "scan_from True (l @ newline # rest) = scan_from True rest"
    and "scan_from True l = []"
proof -
  from assms(1) obtain c cs where l: "l = c # cs"
    by (cases l) (auto simp: comment_line_def)
  from assms(2) l have c: "c \<noteq> newline" and cs: "newline \<notin> set cs"
    by auto
  have "match_directive (l @ newline # rest) = None"
    using assms(1) by (rule match_directive_comment)
  then have "scan_from True (l @ newline # rest) = scan_from False (cs @ newline # rest)"
    using c by (simp add: l)
  with scan_from_rest_of_line(1) [OF cs]
  show "scan_from True (l @ newline # rest) = scan_from True rest"
    by simp
  have "match_directive (l @ []) = None"
    using assms(1) by (rule match_directive_comment)
  then have "scan_from True l = scan_from False cs"
    using c by (simp add: l)
  with scan_from_rest_of_line(2) [OF cs]
  show "scan_from True l = []"
    by simp
qed

text \<open>
  What holds of every text. Where a line's first character that is not white space
  starts the comment marker, the pattern does not match, whatever follows on the line
  and after it; a
  text that starts with such a line yields what the text after the line yields, and
  nothing when the line is all there is. And every header the scanner returns comes
  from a place of the text where a line starts with nothing but blanks before the
  keyword \<^verbatim>\<open>%INCLUDE\<close>, so that this line is no comment line; the header is the first
  run of characters that are not white space after the white space that follows the
  keyword, and ends at white space or at the end of the text. The white space after
  the keyword may hold line feeds: the header need not stand on the keyword's line.
\<close>

theorem scanner_takes_anchored_directives:
  "(comment_line l \<longrightarrow> match_directive (l @ rest) = None) \<and>
   (comment_line l \<and> newline \<notin> set l \<longrightarrow>
      scan_for_inc_stmts (l @ newline # rest) = scan_for_inc_stmts rest \<and>
      scan_for_inc_stmts l = []) \<and>
   (tok \<in> set (scan_for_inc_stmts text) \<longrightarrow>
      (\<exists>pre ind gap post.
         text = pre @ ind @ ''%INCLUDE'' @ gap @ tok @ post \<and>
         (pre = [] \<or> last pre = newline) \<and>
         (\<forall>c\<in>set ind. is_space c \<and> c \<noteq> newline) \<and>
         gap \<noteq> [] \<and> (\<forall>c\<in>set gap. is_space c) \<and>
         tok \<noteq> [] \<and> (\<forall>c\<in>set tok. \<not> is_space c) \<and>
         (post = [] \<or> is_space (hd post)) \<and>
         \<not> comment_line (ind @ ''%INCLUDE'' @ gap @ tok @ post)))"
proof (intro conjI impI)
  assume "comment_line l"
  then show "match_directive (l @ rest) = None"
    by (rule match_directive_comment)
next
  assume "comment_line l \<and> newline \<notin> set l"
  then show "scan_for_inc_stmts (l @ newline # rest) = scan_for_inc_stmts rest"
    by (simp add: scan_for_inc_stmts_def scan_from_comment_line(1))
next
  assume "comment_line l \<and> newline \<notin> set l"
  then show "scan_for_inc_stmts l = []"
    by (simp add: scan_for_inc_stmts_def scan_from_comment_line(2))
next
  assume "tok \<in> set (scan_for_inc_stmts text)"
  then have "directive_of ([] @ text) tok"
    unfolding scan_for_inc_stmts_def by (rule scan_from_directive_of) simp
  then obtain pre ind gap post where
    t: "text = pre @ ind @ ''%INCLUDE'' @ gap @ tok @ post"
    and p: "pre = [] \<or> last pre = newline"
    and i: "\<forall>c\<in>set ind. is_space c \<and> c \<noteq> newline"
    and r: "gap \<noteq> []" "\<forall>c\<in>set gap. is_space c" "tok \<noteq> []" "\<forall>c\<in>set tok. \<not> is_space c"
      "post = [] \<or> is_space (hd post)"
    unfolding directive_of_def by auto
  from i have "dropWhile is_space (ind @ ''%INCLUDE'' @ gap @ tok @ post) =
      ''%INCLUDE'' @ gap @ tok @ post"
    by (simp add: dropWhile_append2 is_space_def)
  then have "\<not> comment_line (ind @ ''%INCLUDE'' @ gap @ tok @ post)"
    by (simp add: comment_line_def)
  with t p i r show "\<exists>pre ind gap post.
         text = pre @ ind @ ''%INCLUDE'' @ gap @ tok @ post \<and>
         (pre = [] \<or> last pre = newline) \<and>
         (\<forall>c\<in>set ind. is_space c \<and> c \<noteq> newline) \<and>
         gap \<noteq> [] \<and> (\<forall>c\<in>set gap. is_space c) \<and>
         tok \<noteq> [] \<and> (\<forall>c\<in>set tok. \<not> is_space c) \<and>
         (post = [] \<or> is_space (hd post)) \<and>
         \<not> comment_line (ind @ ''%INCLUDE'' @ gap @ tok @ post)"
    by blast
qed

theorem scanner_takes_anchored_directives_witness:
  "match_directive (''  -- %INCLUDE old.kl'' @ [newline]) = None \<and>
   scan_for_inc_stmts (''  -- %INCLUDE old.kl'' @ newline # ''%INCLUDE new.kl'') = [''new.kl''] \<and>
   scan_for_inc_stmts sample_source =
     [''foo.kl'', ''klevkeys.kl'', ''gen.kl'', ''foo.kl'', ''/abs/bar.kl''] \<and>
   (\<exists>pre ind gap post.
      sample_source = pre @ ind @ ''%INCLUDE'' @ gap @ ''klevkeys.kl'' @ post \<and>
      (pre = [] \<or> last pre = newline) \<and>
      (\<forall>c\<in>set ind. is_space c \<and> c \<noteq> newline) \<and>
      gap \<noteq> [] \<and> (\<forall>c\<in>set gap. is_space c) \<and>
      (post = [] \<or> is_space (hd post)) \<and>
      \<not> comment_line (ind @ ''%INCLUDE'' @ gap @ ''klevkeys.kl'' @ post))"
proof -
  have c: "comment_line ''  -- %INCLUDE old.kl''"
    by (simp add: comment_line_def is_space_def)
  have n: "newline \<notin> set ''  -- %INCLUDE old.kl''"
    by (simp add: newline_def)
  have t: "''klevkeys.kl'' \<in> set (scan_for_inc_stmts sample_source)"
    by (simp add: sample_scan)
  have new: "scan_for_inc_stmts ''%INCLUDE new.kl'' = [''new.kl'']"
    by code_simp
  note inst = scanner_takes_anchored_directives
    [of "''  -- %INCLUDE old.kl''" _ "''klevkeys.kl''" sample_source]
  from inst [of "[newline]", THEN conjunct1, rule_format, OF c]
  have 1: "match_directive (''  -- %INCLUDE old.kl'' @ [newline]) = None" .
  from inst [of "''%INCLUDE new.kl''", THEN conjunct2, THEN conjunct1, rule_format, OF conjI [OF c n]]
  have "scan_for_inc_stmts (''  -- %INCLUDE old.kl'' @ newline # ''%INCLUDE new.kl'') =
      scan_for_inc_stmts ''%INCLUDE new.kl''"
    by (rule conjunct1)
  with new have 2: "scan_for_inc_stmts (''  -- %INCLUDE old.kl'' @ newline # ''%INCLUDE new.kl'') =
      [''new.kl'']"
    by simp
  from inst [of "[]", THEN conjunct2, THEN conjunct2, rule_format, OF t]
  have 3: "\<exists>pre ind gap post.
      sample_source = pre @ ind @ ''%INCLUDE'' @ gap @ ''klevkeys.kl'' @ post \<and>
      (pre = [] \<or> last pre = newline) \<and>
      (\<forall>c\<in>set ind. is_space c \<and> c \<noteq> newline) \<and>
      gap \<noteq> [] \<and> (\<forall>c\<in>set gap. is_space c) \<and>
      (post = [] \<or> is_space (hd post)) \<and>
      \<not> comment_line (ind @ ''%INCLUDE'' @ gap @ ''klevkeys.kl'' @ post)"
    by blast
  from 1 2 sample_scan 3 show ?thesis
    by (intro conjI)
qed

subsection \<open>A keyword that ends its line\<close>

text \<open>
  Claim C3, at a keyword with nothing after it on its line. The white space that the
  pattern asks for after \<^verbatim>\<open>%INCLUDE\<close> is \<^verbatim>\<open>\s+\<close>, which runs over the line feed, and
  the token is then taken from the next line. In the first text that line is a
  comment line, \<^verbatim>\<open>-- %INCLUDE real.kl\<close>: the scanner returns the comment marker
  \<^verbatim>\<open>--\<close> as a header, and then \<^verbatim>\<open>b.kl\<close>. In the second the comment line is
  \<^verbatim>\<open>--x\<close> and the scanner returns \<^verbatim>\<open>--x\<close>. In the third the keyword is followed by
  an empty line and a directive line, and the scanner returns the keyword of that
  line, not its header.
\<close>

theorem scanner_takes_token_from_comment_line:
  "comment_line ''-- %INCLUDE real.kl'' \<and>
   scan_for_inc_stmts
     (''%INCLUDE'' @ [CHR 0x0A] @ ''-- %INCLUDE real.kl'' @ [CHR 0x0A] @ ''%INCLUDE b.kl'') =
     [''--'', ''b.kl''] \<and>
   comment_line ''--x'' \<and>
   scan_for_inc_stmts (''%INCLUDE'' @ [CHR 0x0A] @ ''--x'') = [''--x''] \<and>
   scan_for_inc_stmts (''%INCLUDE'' @ [CHR 0x0A, CHR 0x0A] @ ''%INCLUDE a.kl'' @ [CHR 0x0A]) =
     [''%INCLUDE'']"
proof -
  have 1: "comment_line ''-- %INCLUDE real.kl''"
    by (simp add: comment_line_def is_space_def)
  have 2: "scan_for_inc_stmts
     (''%INCLUDE'' @ [CHR 0x0A] @ ''-- %INCLUDE real.kl'' @ [CHR 0x0A] @ ''%INCLUDE b.kl'') =
     [''--'', ''b.kl'']"
    by code_simp
  have 3: "comment_line ''--x''"
    by (simp add: comment_line_def is_space_def)
  have 4: "scan_for_inc_stmts (''%INCLUDE'' @ [CHR 0x0A] @ ''--x'') = [''--x'']"
    by code_simp
  have 5: "scan_for_inc_stmts (''%INCLUDE'' @ [CHR 0x0A, CHR 0x0A] @ ''%INCLUDE a.kl'' @ [CHR 0x0A]) =
     [''%INCLUDE'']"
    by code_simp
  from 1 2 3 4 5 show ?thesis
    by (intro conjI)
qed

end
